theory Spec2Isabelle
  imports Main
begin

section \<open>Python values: strings, integers, exceptions\<close>

text \<open>
  A Python \<open>str\<close> is a sequence of Unicode code points; it is modelled as a list of
  natural numbers, so that \<open>len\<close> counts code points and characters beyond Latin-1
  (the check mark and the dashes of the progress and README lines) are ordinary elements.
  \<open>ascii\<close> embeds an Isabelle string literal.
\<close>

type_synonym ustr = "nat list"

definition ascii :: "string \<Rightarrow> ustr" where
  "ascii s = map of_char s"

text \<open>The exceptions that the modelled code paths can raise.\<close>

datatype exn =
    IndexError
  | RuntimeError
  | JSONDecodeError
  | AttributeError
  | TypeError
  | UnicodeEncodeError
  | UnicodeDecodeError
  | FileNotFoundError
  | FileExistsError
  | NotADirectoryError
  | IsADirectoryError
  | SameFileError
  | RemoteError

text \<open>
  \<open>str.isspace\<close> on one code point, which is what \<open>str.strip()\<close> without arguments
  removes: the ASCII white space with the four separators 0x1C to 0x1F, NEL, the
  no-break space and the Unicode space separators.
\<close>

definition is_space :: "nat \<Rightarrow> bool" where
  "is_space c =
     (c \<in> set [9, 10, 11, 12, 13, 28, 29, 30, 31, 32, 133, 160, 5760, 8232, 8233, 8239, 8287, 12288]
      \<or> (8192 \<le> c \<and> c \<le> 8202))"

definition py_strip :: "ustr \<Rightarrow> ustr" where
  "py_strip s = rev (dropWhile is_space (rev (dropWhile is_space s)))"

definition startswith :: "ustr \<Rightarrow> ustr \<Rightarrow> bool" where
  "startswith s p = (take (length p) s = p)"

definition endswith :: "ustr \<Rightarrow> ustr \<Rightarrow> bool" where
  "endswith s p = (length p \<le> length s \<and> drop (length s - length p) s = p)"

text \<open>
  \<open>find_sep sep s\<close> cuts \<open>s\<close> at the leftmost occurrence of the non-empty separator,
  \<open>rfind_sep\<close> at the rightmost one; \<open>None\<close> when the separator does not occur.
\<close>

fun find_sep :: "ustr \<Rightarrow> ustr \<Rightarrow> (ustr \<times> ustr) option" where
  "find_sep sep [] = None"
| "find_sep sep (x # xs) =
     (if startswith (x # xs) sep then Some ([], drop (length sep) (x # xs))
      else (case find_sep sep xs of
              None \<Rightarrow> None
            | Some (a, b) \<Rightarrow> Some (x # a, b)))"

fun rfind_sep :: "ustr \<Rightarrow> ustr \<Rightarrow> (ustr \<times> ustr) option" where
  "rfind_sep sep [] = None"
| "rfind_sep sep (x # xs) =
     (case rfind_sep sep xs of
        Some (a, b) \<Rightarrow> Some (x # a, b)
      | None \<Rightarrow>
          (if startswith (x # xs) sep then Some ([], drop (length sep) (x # xs))
           else None))"

text \<open>\<open>s.split(sep, 1)\<close> and \<open>s.rsplit(sep, 1)\<close> for a non-empty separator.\<close>

definition py_split1 :: "ustr \<Rightarrow> ustr \<Rightarrow> ustr list" where
  "py_split1 s sep = (case find_sep sep s of None \<Rightarrow> [s] | Some (a, b) \<Rightarrow> [a, b])"

definition py_rsplit1 :: "ustr \<Rightarrow> ustr \<Rightarrow> ustr list" where
  "py_rsplit1 s sep = (case rfind_sep sep s of None \<Rightarrow> [s] | Some (a, b) \<Rightarrow> [a, b])"

text \<open>List indexing with a non-negative index: out of range raises.\<close>

definition py_index :: "'a list \<Rightarrow> nat \<Rightarrow> exn + 'a" where
  "py_index xs i = (if i < length xs then Inr (xs ! i) else Inl IndexError)"

text \<open>Decimal rendering of integers, as \<open>str\<close> and the f-string fields produce it.\<close>

fun digits :: "nat \<Rightarrow> ustr" where
  "digits n = (if n < 10 then [48 + n] else digits (n div 10) @ [48 + n mod 10])"

declare digits.simps [simp del]

definition py_str_int :: "int \<Rightarrow> ustr" where
  "py_str_int i = (if i < 0 then 45 # digits (nat (- i)) else digits (nat i))"

text \<open>The format \<open>{n:,}\<close>: decimal digits in groups of three, separated by commas.\<close>

definition pad3 :: "nat \<Rightarrow> ustr" where
  "pad3 n = [48 + n div 100 mod 10, 48 + n div 10 mod 10, 48 + n mod 10]"

fun group3 :: "nat \<Rightarrow> ustr" where
  "group3 n = (if n < 1000 then digits n else group3 (n div 1000) @ 44 # pad3 (n mod 1000))"

declare group3.simps [simp del]

definition fmt_thousands :: "int \<Rightarrow> ustr" where
  "fmt_thousands i = (if i < 0 then 45 # group3 (nat (- i)) else group3 (nat i))"

section \<open>video\_to\_plan: elapsed time and fence stripping\<close>

text \<open>
  \<open>_elapsed(start)\<close> computes \<open>secs = int(time.time() - start)\<close> and formats it. The
  clock and the floating-point difference are outside the model: \<open>elapsed\<close> is the
  function of the whole number of seconds \<open>secs\<close>. Python's \<open>//\<close> and \<open>%\<close> on
  integers are \<open>div\<close> and \<open>mod\<close> on \<open>int\<close>.
\<close>

definition elapsed :: "int \<Rightarrow> ustr" where
  "elapsed secs =
     (if secs < 60 then py_str_int secs @ ascii ''s''
      else py_str_int (secs div 60) @ ascii ''m '' @ py_str_int (secs mod 60) @ ascii ''s'')"

definition fence :: ustr where
  "fence = ascii ''```''"

text \<open>
  \<open>_strip_fences\<close>. The element 1 of \<open>text.split("\n", 1)\<close> is read without a check,
  so the read raises \<open>IndexError\<close> when the trimmed text has no newline.
\<close>

definition strip_fences :: "ustr \<Rightarrow> exn + ustr" where
  "strip_fences text0 =
     (let text1 = py_strip text0 in
      if startswith text1 fence then
        (case py_index (py_split1 text1 [10]) 1 of
           Inl e \<Rightarrow> Inl e
         | Inr text2 \<Rightarrow>
             (case (if endswith text2 fence then py_index (py_rsplit1 text2 fence) 0
                    else Inr text2) of
                Inl e \<Rightarrow> Inl e
              | Inr text3 \<Rightarrow> Inr (py_strip text3)))
      else Inr text1)"

section \<open>More of the Python library\<close>

text \<open>\<open>sep.join(xs)\<close>, \<open>s.split(c)\<close> for a one-character separator, and \<open>s.split()\<close>.\<close>

fun py_join :: "ustr \<Rightarrow> ustr list \<Rightarrow> ustr" where
  "py_join sep [] = []"
| "py_join sep [x] = x"
| "py_join sep (x # y # ys) = x @ sep @ py_join sep (y # ys)"

fun py_split_char :: "nat \<Rightarrow> ustr \<Rightarrow> ustr list" where
  "py_split_char c [] = [[]]"
| "py_split_char c (x # xs) =
     (if x = c then [] # py_split_char c xs
      else (case py_split_char c xs of
              [] \<Rightarrow> [[x]]
            | y # ys \<Rightarrow> (x # y) # ys))"

function py_split_ws :: "ustr \<Rightarrow> ustr list" where
  "py_split_ws s =
     (case dropWhile is_space s of
        [] \<Rightarrow> []
      | x # t \<Rightarrow>
          (x # takeWhile (\<lambda>c. \<not> is_space c) t)
            # py_split_ws (dropWhile (\<lambda>c. \<not> is_space c) t))"
  by pat_completeness auto
termination
proof (relation "measure length")
  show "wf (measure length)" by simp
next
  fix s :: ustr and x t
  assume a: "dropWhile is_space s = x # t"
  have "length (dropWhile (\<lambda>c. \<not> is_space c) t) \<le> length t"
    by (rule length_dropWhile_le)
  moreover have "length (x # t) \<le> length s"
    using length_dropWhile_le [of is_space s] a by simp
  ultimately show "(dropWhile (\<lambda>c. \<not> is_space c) t, s) \<in> measure length"
    by simp
qed

declare py_split_ws.simps [simp del]

text \<open>Truthiness of an optional string (\<open>None\<close> and the empty string are false) and \<open>a or b\<close>.\<close>

definition truthy :: "ustr option \<Rightarrow> bool" where
  "truthy v = (case v of None \<Rightarrow> False | Some t \<Rightarrow> t \<noteq> [])"

definition py_or :: "ustr option \<Rightarrow> ustr option \<Rightarrow> ustr option" where
  "py_or a b = (if truthy a then a else b)"

text \<open>The \<open>repr\<close> of a list of integers, as an f-string field prints it.\<close>

definition repr_int_list :: "int list \<Rightarrow> ustr" where
  "repr_int_list xs = [91] @ py_join (ascii '', '') (map py_str_int xs) @ [93]"

section \<open>JSON documents and \<open>json.dumps\<close>\<close>

text \<open>
  A parsed JSON document. Objects keep their keys in insertion order, as a \<open>dict\<close> does.
  A float is carried by its \<open>repr\<close>, an ASCII text: floating point is not modelled.
\<close>

datatype json =
    JNull
  | JBool bool
  | JInt int
  | JFloat ustr
  | JStr ustr
  | JArr "json list"
  | JObj "(ustr \<times> json) list"

definition hex_digit :: "nat \<Rightarrow> nat" where
  "hex_digit d = (if d < 10 then 48 + d else 87 + d)"

definition hex4 :: "nat \<Rightarrow> ustr" where
  "hex4 n = [hex_digit (n div 4096 mod 16), hex_digit (n div 256 mod 16),
             hex_digit (n div 16 mod 16), hex_digit (n mod 16)]"

text \<open>
  One character of a JSON string. Both encoders escape the backslash, the double quote and
  the control characters below 0x20; with \<open>ensure_ascii\<close> every character outside the
  printable ASCII range is written as \<open>\uXXXX\<close> too (a surrogate pair above the BMP), and
  without it such a character is written as it is.
\<close>

definition escape_char :: "bool \<Rightarrow> nat \<Rightarrow> ustr" where
  "escape_char ensure_ascii c =
     (if c = 92 then [92, 92]
      else if c = 34 then [92, 34]
      else if c = 8 then [92, 98]
      else if c = 12 then [92, 102]
      else if c = 10 then [92, 110]
      else if c = 13 then [92, 114]
      else if c = 9 then [92, 116]
      else if c < 32 then 92 # 117 # hex4 c
      else if ensure_ascii \<and> 126 < c then
        (if c < 65536 then 92 # 117 # hex4 c
         else (92 # 117 # hex4 (55296 + (c - 65536) div 1024 mod 1024))
              @ (92 # 117 # hex4 (56320 + (c - 65536) mod 1024)))
      else [c])"

definition encode_basestring :: "bool \<Rightarrow> ustr \<Rightarrow> ustr" where
  "encode_basestring ensure_ascii s = 34 # concat (map (escape_char ensure_ascii) s) @ [34]"

definition newline_indent :: "nat \<Rightarrow> ustr" where
  "newline_indent level = 10 # replicate (2 * level) 32"

text \<open>
  The encoder with \<open>indent=2\<close>: the item separator is a comma, the key separator a colon
  and a space, and an empty container is written without a line break.
\<close>

fun iterencode :: "bool \<Rightarrow> nat \<Rightarrow> json \<Rightarrow> ustr" where
  "iterencode ea level JNull = ascii ''null''"
| "iterencode ea level (JBool b) = (if b then ascii ''true'' else ascii ''false'')"
| "iterencode ea level (JInt i) = py_str_int i"
| "iterencode ea level (JFloat r) = r"
| "iterencode ea level (JStr s) = encode_basestring ea s"
| "iterencode ea level (JArr xs) =
     (if xs = [] then ascii ''[]''
      else [91] @ newline_indent (Suc level)
        @ py_join (44 # newline_indent (Suc level)) (map (iterencode ea (Suc level)) xs)
        @ newline_indent level @ [93])"
| "iterencode ea level (JObj kvs) =
     (if kvs = [] then ascii ''{}''
      else [123] @ newline_indent (Suc level)
        @ py_join (44 # newline_indent (Suc level))
            (map (\<lambda>(k, v). encode_basestring ea k @ ascii '': '' @ iterencode ea (Suc level) v)
               kvs)
        @ newline_indent level @ [125])"

definition json_dumps :: "bool \<Rightarrow> json \<Rightarrow> ustr" where
  "json_dumps ensure_ascii doc = iterencode ensure_ascii 0 doc"

text \<open>\<open>d.get(key, [])\<close> on a parsed document, and \<open>len\<close> of the value it yields.\<close>

definition json_get_list :: "json \<Rightarrow> ustr \<Rightarrow> exn + json" where
  "json_get_list doc key =
     (case doc of
        JObj kvs \<Rightarrow> (case map_of kvs key of None \<Rightarrow> Inr (JArr []) | Some v \<Rightarrow> Inr v)
      | _ \<Rightarrow> Inl AttributeError)"

definition json_len :: "json \<Rightarrow> exn + nat" where
  "json_len v =
     (case v of
        JArr xs \<Rightarrow> Inr (length xs)
      | JObj kvs \<Rightarrow> Inr (length kvs)
      | JStr s \<Rightarrow> Inr (length s)
      | _ \<Rightarrow> Inl TypeError)"

section \<open>Text encodings\<close>

text \<open>
  Bytes are natural numbers below 256. \<open>encode\<close> and \<open>decode\<close> are the strict codecs:
  \<open>None\<close> stands for \<open>UnicodeEncodeError\<close> and \<open>UnicodeDecodeError\<close>.
\<close>

datatype encoding = UTF8 | Latin1 | ASCII

definition utf8_encode_char :: "nat \<Rightarrow> nat list option" where
  "utf8_encode_char c =
     (if c < 128 then Some [c]
      else if c < 2048 then Some [192 + c div 64, 128 + c mod 64]
      else if c < 65536 then
        (if 55296 \<le> c \<and> c \<le> 57343 then None
         else Some [224 + c div 4096, 128 + c div 64 mod 64, 128 + c mod 64])
      else if c < 1114112 then
        Some [240 + c div 262144, 128 + c div 4096 mod 64, 128 + c div 64 mod 64, 128 + c mod 64]
      else None)"

definition encode_char :: "encoding \<Rightarrow> nat \<Rightarrow> nat list option" where
  "encode_char enc c =
     (case enc of
        UTF8 \<Rightarrow> utf8_encode_char c
      | Latin1 \<Rightarrow> (if c < 256 then Some [c] else None)
      | ASCII \<Rightarrow> (if c < 128 then Some [c] else None))"

definition encode :: "encoding \<Rightarrow> ustr \<Rightarrow> nat list option" where
  "encode enc s = map_option concat (those (map (encode_char enc) s))"

definition is_cont :: "nat \<Rightarrow> bool" where
  "is_cont b = (128 \<le> b \<and> b < 192)"

fun utf8_decode :: "nat list \<Rightarrow> ustr option" where
  "utf8_decode [] = Some []"
| "utf8_decode (b # bs) =
     (if b < 128 then map_option ((#) b) (utf8_decode bs)
      else if 194 \<le> b \<and> b < 224 then
        (case bs of
           b1 # r \<Rightarrow>
             if is_cont b1
             then map_option ((#) ((b - 192) * 64 + (b1 - 128))) (utf8_decode r)
             else None
         | _ \<Rightarrow> None)
      else if 224 \<le> b \<and> b < 240 then
        (case bs of
           b1 # b2 # r \<Rightarrow>
             (let c = (b - 224) * 4096 + (b1 - 128) * 64 + (b2 - 128) in
              if is_cont b1 \<and> is_cont b2 \<and> 2048 \<le> c \<and> (c < 55296 \<or> 57343 < c)
              then map_option ((#) c) (utf8_decode r)
              else None)
         | _ \<Rightarrow> None)
      else if 240 \<le> b \<and> b < 245 then
        (case bs of
           b1 # b2 # b3 # r \<Rightarrow>
             (let c = (b - 240) * 262144 + (b1 - 128) * 4096 + (b2 - 128) * 64 + (b3 - 128) in
              if is_cont b1 \<and> is_cont b2 \<and> is_cont b3 \<and> 65536 \<le> c \<and> c < 1114112
              then map_option ((#) c) (utf8_decode r)
              else None)
         | _ \<Rightarrow> None)
      else None)"

definition decode :: "encoding \<Rightarrow> nat list \<Rightarrow> ustr option" where
  "decode enc bs =
     (case enc of
        UTF8 \<Rightarrow> utf8_decode bs
      | Latin1 \<Rightarrow> (if list_all (\<lambda>b. b < 256) bs then Some bs else None)
      | ASCII \<Rightarrow> (if list_all (\<lambda>b. b < 128) bs then Some bs else None))"

section \<open>The world a run executes in\<close>

text \<open>
  A path is the list of its components below the root, already resolved; \<open>p / name\<close>
  appends a component and \<open>p.parent\<close> drops the last one. The file system maps a path to
  a directory or to a file holding bytes; the root is always a directory. Symbolic links
  and permissions are not modelled.
\<close>

type_synonym path = "ustr list"

datatype node = Dir | File "nat list"

type_synonym filesystem = "path \<Rightarrow> node option"

definition path_str :: "path \<Rightarrow> ustr" where
  "path_str p = (if p = [] then [47] else concat (map (\<lambda>c. 47 # c) p))"

definition lookup :: "filesystem \<Rightarrow> path \<Rightarrow> node option" where
  "lookup fs p = (if p = [] then Some Dir else fs p)"

definition path_exists :: "filesystem \<Rightarrow> path \<Rightarrow> bool" where
  "path_exists fs p = (lookup fs p \<noteq> None)"

definition is_dir :: "filesystem \<Rightarrow> path \<Rightarrow> bool" where
  "is_dir fs p = (lookup fs p = Some Dir)"

text \<open>\<open>os.mkdir\<close>, and \<open>Path.mkdir\<close> without and with \<open>parents=True\<close>.\<close>

definition os_mkdir :: "filesystem \<Rightarrow> path \<Rightarrow> exn + filesystem" where
  "os_mkdir fs p =
     (if path_exists fs p then Inl FileExistsError
      else (case lookup fs (butlast p) of
              None \<Rightarrow> Inl FileNotFoundError
            | Some (File bs) \<Rightarrow> Inl NotADirectoryError
            | Some Dir \<Rightarrow> Inr (fs(p \<mapsto> Dir))))"

definition mkdir_plain :: "bool \<Rightarrow> path \<Rightarrow> filesystem \<Rightarrow> exn + filesystem" where
  "mkdir_plain exist_ok p fs =
     (case os_mkdir fs p of
        Inr fs1 \<Rightarrow> Inr fs1
      | Inl e \<Rightarrow>
          if e = FileNotFoundError then Inl e
          else if exist_ok \<and> is_dir fs p then Inr fs
          else Inl e)"

function mkdir_parents :: "bool \<Rightarrow> path \<Rightarrow> filesystem \<Rightarrow> exn + filesystem" where
  "mkdir_parents exist_ok p fs =
     (case os_mkdir fs p of
        Inr fs1 \<Rightarrow> Inr fs1
      | Inl e \<Rightarrow>
          if e = FileNotFoundError then
            (if p = [] then Inl e
             else (case mkdir_parents True (butlast p) fs of
                     Inl e1 \<Rightarrow> Inl e1
                   | Inr fs1 \<Rightarrow> mkdir_plain exist_ok p fs1))
          else if exist_ok \<and> is_dir fs p then Inr fs
          else Inl e)"
  by pat_completeness auto
termination
  by (relation "measure (\<lambda>(exist_ok, p, fs). length p)") auto

declare mkdir_parents.simps [simp del]

text \<open>Opening a file for writing creates it empty, or truncates it.\<close>

definition open_write :: "filesystem \<Rightarrow> path \<Rightarrow> exn + filesystem" where
  "open_write fs p =
     (if is_dir fs p then Inl IsADirectoryError
      else (case lookup fs (butlast p) of
              None \<Rightarrow> Inl FileNotFoundError
            | Some (File bs) \<Rightarrow> Inl NotADirectoryError
            | Some Dir \<Rightarrow> Inr (fs(p \<mapsto> File []))))"

text \<open>Reading in text mode translates \<open>\r\n\<close> and \<open>\r\<close> to \<open>\n\<close>.\<close>

fun universal_newlines :: "ustr \<Rightarrow> ustr" where
  "universal_newlines [] = []"
| "universal_newlines [c] = (if c = 13 then [10] else [c])"
| "universal_newlines (c # d # r) =
     (if c = 13 \<and> d = 10 then 10 # universal_newlines r
      else if c = 13 then 10 # universal_newlines (d # r)
      else c # universal_newlines (d # r))"

text \<open>
  What the providers answer is an input of the run. The uploaded file is described by its
  name, URI, MIME type and the name of its processing state.
\<close>

record video_file =
  vf_name :: ustr
  vf_uri :: ustr
  vf_mime_type :: ustr
  vf_state :: ustr

text \<open>
  The requests a run sends, in the order it sends them: the prompt of a streaming request
  is text alone or the uploaded video (URI, MIME type) with text; the temperature is the
  source's decimal literal.
\<close>

datatype contents = TextPrompt ustr | VideoAndText ustr ustr ustr

datatype call =
    FilesUpload path
  | FilesGet ustr
  | Sleep nat
  | GenerateContentStream ustr contents ustr nat
  | FilesDelete ustr
  | ChatCompletionsCreate ustr "(ustr \<times> ustr) list" ustr nat

text \<open>
  A streamed event of the chat API: its choices, each with an optional delta that has an
  optional content.
\<close>

type_synonym event = "ustr option option list"

text \<open>
  Everything a run reads from outside: the environment variables, the locale's preferred
  encoding (what \<open>write_text\<close> and \<open>read_text\<close> use when no encoding is passed),
  \<open>json.loads\<close> (\<open>None\<close> for \<open>JSONDecodeError\<close>), the whole seconds that the successive
  calls of \<open>_elapsed\<close> measure, the rendering of the video's size in megabytes, the
  providers' answers (a stream is its chunks' texts and the exception that ends it, if
  any), and the two renderings of \<open>datetime.now()\<close>.
\<close>

record world =
  env_gemini_api_key :: "ustr option"
  env_openai_api_key :: "ustr option"
  locale_encoding :: encoding
  json_loads :: "ustr \<Rightarrow> json option"
  secs_at :: "nat \<Rightarrow> int"
  size_mb_text :: ustr
  upload_reply :: "exn + video_file"
  get_replies :: "(exn + video_file) list"
  delete_reply :: "exn option"
  pro_stream :: "ustr option list \<times> exn option"
  flash_stream :: "ustr option list \<times> exn option"
  openai_stream :: "event list \<times> exn option"
  now_isoformat :: ustr
  now_date :: ustr

text \<open>
  What a run changes: the file system, the texts printed to standard output and to standard
  error (one element per \<open>print\<close> call), the requests sent, and how many times
  \<open>_elapsed\<close> was called.
\<close>

record state =
  files :: filesystem
  stdout :: "ustr list"
  stderr :: "ustr list"
  calls :: "call list"
  ticks :: nat

text \<open>
  A statement runs to a value, to \<open>sys.exit(n)\<close>, to an uncaught exception, or never ends
  (\<open>Hang\<close>: the polling loop when the provider keeps answering that it is processing).
\<close>

datatype 'a res = Ok 'a | Exit int | Raise exn | Hang

type_synonym 'a prog = "state \<Rightarrow> 'a res \<times> state"

definition ret :: "'a \<Rightarrow> 'a prog" where
  "ret x s = (Ok x, s)"

definition raise :: "exn \<Rightarrow> 'a prog" where
  "raise e s = (Raise e, s)"

definition sys_exit :: "int \<Rightarrow> 'a prog" where
  "sys_exit n s = (Exit n, s)"

definition pbind :: "'a prog \<Rightarrow> ('a \<Rightarrow> 'b prog) \<Rightarrow> 'b prog" where
  "pbind m f s =
     (case m s of
        (Ok x, s1) \<Rightarrow> f x s1
      | (Exit n, s1) \<Rightarrow> (Exit n, s1)
      | (Raise e, s1) \<Rightarrow> (Raise e, s1)
      | (Hang, s1) \<Rightarrow> (Hang, s1))"

definition pseq :: "'a prog \<Rightarrow> 'b prog \<Rightarrow> 'b prog" where
  "pseq m k = pbind m (\<lambda>x. k)"

definition do_when :: "bool \<Rightarrow> unit prog \<Rightarrow> unit prog" where
  "do_when c m = (if c then m else ret ())"

definition lift_exn :: "exn + 'a \<Rightarrow> 'a prog" where
  "lift_exn r = (case r of Inl e \<Rightarrow> raise e | Inr x \<Rightarrow> ret x)"

definition print_out :: "ustr \<Rightarrow> unit prog" where
  "print_out t s = (Ok (), s\<lparr>stdout := stdout s @ [t]\<rparr>)"

definition print_err :: "ustr \<Rightarrow> unit prog" where
  "print_err t s = (Ok (), s\<lparr>stderr := stderr s @ [t]\<rparr>)"

definition remote_call :: "call \<Rightarrow> unit prog" where
  "remote_call c s = (Ok (), s\<lparr>calls := calls s @ [c]\<rparr>)"

definition elapsed_now :: "world \<Rightarrow> ustr prog" where
  "elapsed_now w s = (Ok (elapsed (secs_at w (ticks s))), s\<lparr>ticks := Suc (ticks s)\<rparr>)"

definition exists_p :: "path \<Rightarrow> bool prog" where
  "exists_p p s = (Ok (path_exists (files s) p), s)"

definition mkdir :: "bool \<Rightarrow> bool \<Rightarrow> path \<Rightarrow> unit prog" where
  "mkdir parents exist_ok p s =
     (case (if parents then mkdir_parents exist_ok p (files s)
            else mkdir_plain exist_ok p (files s)) of
        Inl e \<Rightarrow> (Raise e, s)
      | Inr fs1 \<Rightarrow> (Ok (), s\<lparr>files := fs1\<rparr>))"

text \<open>
  \<open>Path.write_text\<close> and \<open>Path.read_text\<close>: with no \<open>encoding\<close> argument the locale's
  encoding is used. The file is opened (created or truncated) before the text is encoded,
  so a text that cannot be encoded leaves an empty file behind. Line ends are written as
  they are (a POSIX platform).
\<close>

definition write_text :: "world \<Rightarrow> encoding option \<Rightarrow> path \<Rightarrow> ustr \<Rightarrow> unit prog" where
  "write_text w encoding p data s =
     (case open_write (files s) p of
        Inl e \<Rightarrow> (Raise e, s)
      | Inr fs1 \<Rightarrow>
          (case encode (case encoding of None \<Rightarrow> locale_encoding w | Some enc \<Rightarrow> enc) data of
             None \<Rightarrow> (Raise UnicodeEncodeError, s\<lparr>files := fs1\<rparr>)
           | Some bs \<Rightarrow> (Ok (), s\<lparr>files := fs1(p \<mapsto> File bs)\<rparr>)))"

definition read_text :: "world \<Rightarrow> encoding option \<Rightarrow> path \<Rightarrow> ustr prog" where
  "read_text w encoding p s =
     (case lookup (files s) p of
        None \<Rightarrow> (Raise FileNotFoundError, s)
      | Some Dir \<Rightarrow> (Raise IsADirectoryError, s)
      | Some (File bs) \<Rightarrow>
          (case decode (case encoding of None \<Rightarrow> locale_encoding w | Some enc \<Rightarrow> enc) bs of
             None \<Rightarrow> (Raise UnicodeDecodeError, s)
           | Some t \<Rightarrow> (Ok (universal_newlines t), s)))"

text \<open>\<open>shutil.copy2\<close>: a destination that is a directory receives the file under its name.\<close>

definition copy2 :: "path \<Rightarrow> path \<Rightarrow> unit prog" where
  "copy2 src dst s =
     (case lookup (files s) src of
        None \<Rightarrow> (Raise FileNotFoundError, s)
      | Some Dir \<Rightarrow> (Raise IsADirectoryError, s)
      | Some (File bs) \<Rightarrow>
          (let target = (if is_dir (files s) dst then dst @ [last src] else dst) in
           if target = src then (Raise SameFileError, s)
           else (case open_write (files s) target of
                   Inl e \<Rightarrow> (Raise e, s)
                 | Inr fs1 \<Rightarrow> (Ok (), s\<lparr>files := fs1(target \<mapsto> File bs)\<rparr>))))"

definition loads :: "world \<Rightarrow> ustr \<Rightarrow> json prog" where
  "loads w t = (case json_loads w t of None \<Rightarrow> raise JSONDecodeError | Some doc \<Rightarrow> ret doc)"

section \<open>video\_to\_plan: streaming and the three phases\<close>

text \<open>\<open>_progress\<close> prints one line.\<close>

definition progress :: "ustr \<Rightarrow> unit prog" where
  "progress msg = print_out msg"

text \<open>
  The loop of \<open>_stream_gemini\<close> over the chunks of the response, on the local variables
  \<open>chunks\<close>, \<open>char_count\<close> and \<open>last_report\<close>. A chunk whose text is \<open>None\<close> or empty
  is skipped.
\<close>

fun stream_loop ::
  "world \<Rightarrow> ustr \<Rightarrow> ustr option list \<Rightarrow> ustr list \<times> int \<times> int \<Rightarrow> (ustr list \<times> int \<times> int) prog"
where
  "stream_loop w label [] acc = ret acc"
| "stream_loop w label (chunk_text # rest) (chunks, char_count, last_report) =
     (case chunk_text of
        None \<Rightarrow> stream_loop w label rest (chunks, char_count, last_report)
      | Some t \<Rightarrow>
          if t = [] then stream_loop w label rest (chunks, char_count, last_report)
          else if char_count + int (length t) - last_report \<ge> 2000 then
            pbind (elapsed_now w) (\<lambda>e.
            pseq (progress (ascii ''  ... '' @ label @ ascii '': ''
                            @ fmt_thousands (char_count + int (length t))
                            @ ascii '' chars ('' @ e @ ascii '')''))
                 (stream_loop w label rest
                    (chunks @ [t], char_count + int (length t), char_count + int (length t))))
          else stream_loop w label rest (chunks @ [t], char_count + int (length t), last_report))"

definition stream_gemini ::
  "world \<Rightarrow> ustr option list \<times> exn option \<Rightarrow> ustr \<Rightarrow> contents \<Rightarrow> ustr \<Rightarrow> ustr prog"
where
  "stream_gemini w response model contents label =
     pseq (progress (ascii ''  Streaming from '' @ model @ ascii ''...''))
    (pseq (remote_call (GenerateContentStream model contents (ascii ''0.2'') 65536))
    (pbind (stream_loop w label (fst response) ([], 0, 0)) (\<lambda>(chunks, char_count, last_report).
     pseq (case snd response of None \<Rightarrow> ret () | Some e \<Rightarrow> raise e)
    (pbind (elapsed_now w) (\<lambda>e.
     pseq (progress ([32, 32, 10003, 32] @ label @ ascii '': '' @ fmt_thousands char_count
                     @ ascii '' chars total ('' @ e @ ascii '')''))
          (ret (concat chunks)))))))"

text \<open>The polling loop of phase 1: it ends when the file leaves the state PROCESSING.\<close>

fun poll_loop :: "world \<Rightarrow> (exn + video_file) list \<Rightarrow> video_file \<Rightarrow> video_file prog" where
  "poll_loop w [] video_file =
     (if vf_state video_file = ascii ''PROCESSING'' then (\<lambda>s. (Hang, s)) else ret video_file)"
| "poll_loop w (reply # rest) video_file =
     (if vf_state video_file = ascii ''PROCESSING'' then
        pseq (remote_call (Sleep 5))
       (pseq (remote_call (FilesGet (vf_name video_file)))
       (pbind (lift_exn reply) (\<lambda>video_file1.
        pbind (elapsed_now w) (\<lambda>e.
        pseq (progress (ascii ''  ... still processing ('' @ e @ ascii '')''))
             (poll_loop w rest video_file1)))))
      else ret video_file)"

definition rule60 :: ustr where
  "rule60 = replicate 60 61"

definition stat_size_mb :: "world \<Rightarrow> path \<Rightarrow> ustr prog" where
  "stat_size_mb w p s =
     (if path_exists (files s) p then (Ok (size_mb_text w), s) else (Raise FileNotFoundError, s))"

definition files_delete :: "world \<Rightarrow> video_file \<Rightarrow> unit prog" where
  "files_delete w video_file =
     pseq (remote_call (FilesDelete (vf_name video_file)))
          (case delete_reply w of
             None \<Rightarrow> print_out (ascii ''  Cleaned up uploaded video file.'')
           | Some e \<Rightarrow> ret ())"

text \<open>
  The three prompt templates, with their fields filled in as \<open>str.format\<close> does.
\<close>

definition PHASE1_PROMPT :: "ustr \<Rightarrow> ustr" where
  "PHASE1_PROMPT srt_content =
     concat
      [ascii ''You are a meticulous video analyst. You will be given a video recording '',
       ascii ''of a business call and its SRT subtitle transcript. Your job is to walk '',
       ascii ''through the video chronologically and extract structured observations '',
       ascii ''about everything shown on screen.'' @ [10],
       [10],
       ascii ''## SRT Transcript'' @ [10],
       srt_content,
       [10],
       [10],
       ascii ''## Instructions'' @ [10],
       ascii ''Walk through the video from beginning to end. For each distinct visual '',
       ascii ''segment (screen share, UI shown, document, spreadsheet, app, etc.), '',
       ascii ''record:'' @ [10],
       [10],
       ascii ''1. **timestamp** '' @ [8212] @ ascii '' approximate start time (MM:SS or HH:MM:SS)'' @ [10],
       ascii ''2. **end_timestamp** '' @ [8212] @ ascii '' approximate end time'' @ [10],
       ascii ''3. **type** '' @ [8212] @ ascii '' one of: \"screen_share\", \"spreadsheet\", \"app_ui\", '',
       ascii ''\"document\", \"presentation\", \"website\", \"map\", \"chart\", \"other\"'' @ [10],
       ascii ''4. **description** '' @ [8212] @ ascii '' what is being shown on screen in detail'' @ [10],
       ascii ''5. **data_fields** '' @ [8212] @ ascii '' any specific data fields, column headers, form '',
       ascii ''fields, or labels visible'' @ [10],
       ascii ''6. **ui_elements** '' @ [8212] @ ascii '' buttons, menus, navigation elements, tabs visible'' @ [10],
       ascii ''7. **workflow_action** '' @ [8212] @ ascii '' what the user is doing (scrolling, clicking, '',
       ascii ''entering data, etc.)'' @ [10],
       ascii ''8. **spoken_context** '' @ [8212] @ ascii '' what is being said at this moment (reference '',
       ascii ''the subtitles)'' @ [10],
       [10],
       ascii ''Also extract:'' @ [10],
       ascii ''- **app_names** '' @ [8212] @ ascii '' names of any applications or websites shown'' @ [10],
       ascii ''- **data_sources** '' @ [8212] @ ascii '' any data sources mentioned or visible (APIs, '',
       ascii ''databases, services)'' @ [10],
       ascii ''- **pain_points_visual** '' @ [8212] @ ascii '' any visual evidence of friction, manual '',
       ascii ''work, or workarounds'' @ [10],
       [10],
       ascii ''Return your analysis as a JSON object with this structure:'' @ [10],
       ascii ''{'' @ [10],
       ascii ''  \"observations\": ['' @ [10],
       ascii ''    {'' @ [10],
       ascii ''      \"timestamp\": \"MM:SS\",'' @ [10],
       ascii ''      \"end_timestamp\": \"MM:SS\",'' @ [10],
       ascii ''      \"type\": \"screen_share\",'' @ [10],
       ascii ''      \"description\": \"...\",'' @ [10],
       ascii ''      \"data_fields\": [\"field1\", \"field2\"],'' @ [10],
       ascii ''      \"ui_elements\": [\"button1\", \"menu1\"],'' @ [10],
       ascii ''      \"workflow_action\": \"...\",'' @ [10],
       ascii ''      \"spoken_context\": \"...\"'' @ [10],
       ascii ''    }'' @ [10],
       ascii ''  ],'' @ [10],
       ascii ''  \"app_names\": [\"app1\", \"app2\"],'' @ [10],
       ascii ''  \"data_sources\": [\"source1\", \"source2\"],'' @ [10],
       ascii ''  \"pain_points_visual\": [\"pain1\", \"pain2\"]'' @ [10],
       ascii ''}'' @ [10],
       [10],
       ascii ''Be extremely thorough. Capture every screen transition, every '',
       ascii ''spreadsheet shown, every data entry moment. Include specific field '',
       ascii ''names, column headers, and UI labels exactly as they appear on screen.'' @ [10],
       [10],
       ascii ''Return ONLY valid JSON, no markdown fences.'' @ [10]]"

definition PHASE2_PROMPT :: "ustr \<Rightarrow> ustr \<Rightarrow> ustr" where
  "PHASE2_PROMPT visual_analysis srt_content =
     concat
      [ascii ''You are a product analyst. You will be given two inputs:'' @ [10],
       ascii ''1. A structured visual analysis of a video call (JSON with timestamped '',
       ascii ''observations)'' @ [10],
       ascii ''2. The full SRT subtitle transcript of the same call'' @ [10],
       [10],
       ascii ''Your job is to synthesize these into a structured product research '',
       ascii ''document.'' @ [10],
       [10],
       ascii ''## Visual Analysis'' @ [10],
       visual_analysis,
       [10],
       [10],
       ascii ''## SRT Transcript'' @ [10],
       srt_content,
       [10],
       [10],
       ascii ''## Instructions'' @ [10],
       ascii ''Analyze both inputs together and produce a structured JSON document '',
       ascii ''covering:'' @ [10],
       [10],
       ascii ''1. **pain_points** '' @ [8212] @ ascii '' specific problems discussed, with evidence from '',
       ascii ''both visual and verbal sources. Each should have: description, severity '',
       ascii ''(critical/high/medium/low), evidence (quotes or visual references), and '',
       ascii ''timestamp.'' @ [10],
       [10],
       ascii ''2. **current_workflows** '' @ [8212] @ ascii '' step-by-step descriptions of how users '',
       ascii ''currently do their work. Reference specific tools, screens, and data '',
       ascii ''sources observed.'' @ [10],
       [10],
       ascii ''3. **data_sources** '' @ [8212] @ ascii '' all data sources mentioned or shown: name, type, '',
       ascii ''what data they provide, how they'' @ [39] @ ascii ''re accessed, any limitations mentioned.'' @ [10],
       [10],
       ascii ''4. **user_personas** '' @ [8212] @ ascii '' distinct user types discussed, their roles, '',
       ascii ''goals, frustrations, and tech sophistication.'' @ [10],
       [10],
       ascii ''5. **stated_requirements** '' @ [8212] @ ascii '' any explicit feature requests or '',
       ascii ''requirements mentioned. Include who stated them and the context.'' @ [10],
       [10],
       ascii ''6. **implicit_requirements** '' @ [8212] @ ascii '' requirements implied by the pain points '',
       ascii ''and workflows but not explicitly stated.'' @ [10],
       [10],
       ascii ''7. **market_context** '' @ [8212] @ ascii '' industry, market size, competitors mentioned, '',
       ascii ''regulatory considerations, any market-specific details.'' @ [10],
       [10],
       ascii ''8. **key_metrics** '' @ [8212] @ ascii '' any numbers, KPIs, or benchmarks mentioned (deal '',
       ascii ''sizes, time spent, accuracy rates, etc.).'' @ [10],
       [10],
       ascii ''9. **technical_constraints** '' @ [8212] @ ascii '' any technical limitations, integration '',
       ascii ''requirements, or platform preferences mentioned.'' @ [10],
       [10],
       ascii ''10. **visual_evidence_summary** '' @ [8212] @ ascii '' the most important visual '',
       ascii ''observations that inform product decisions, organized by theme.'' @ [10],
       [10],
       ascii ''Return as JSON:'' @ [10],
       ascii ''{'' @ [10],
       ascii ''  \"pain_points\": [...],'' @ [10],
       ascii ''  \"current_workflows\": [...],'' @ [10],
       ascii ''  \"data_sources\": [...],'' @ [10],
       ascii ''  \"user_personas\": [...],'' @ [10],
       ascii ''  \"stated_requirements\": [...],'' @ [10],
       ascii ''  \"implicit_requirements\": [...],'' @ [10],
       ascii ''  \"market_context\": {...},'' @ [10],
       ascii ''  \"key_metrics\": [...],'' @ [10],
       ascii ''  \"technical_constraints\": [...],'' @ [10],
       ascii ''  \"visual_evidence_summary\": [...]'' @ [10],
       ascii ''}'' @ [10],
       [10],
       ascii ''Be specific. Reference timestamps. Quote the speakers when possible. Do '',
       ascii ''not generalize '' @ [8212] @ ascii '' use the actual details from the video.'' @ [10],
       [10],
       ascii ''Return ONLY valid JSON, no markdown fences.'' @ [10]]"

definition PHASE3_PROMPT :: "ustr \<Rightarrow> ustr" where
  "PHASE3_PROMPT synthesis =
     concat
      [ascii ''You are a senior product manager and technical architect. You will be '',
       ascii ''given a structured synthesis document from a user research video call. '',
       ascii ''Your job is to generate a complete, production-quality Product '',
       ascii ''Requirements Document (PRD) and engineering plan.'' @ [10],
       [10],
       ascii ''## Synthesis Document'' @ [10],
       synthesis,
       [10],
       [10],
       ascii ''## Instructions'' @ [10],
       ascii ''Generate a complete PRD in Markdown format with the following sections. '',
       ascii ''Each section should be thorough and reference specific findings from '',
       ascii ''the synthesis.'' @ [10],
       [10],
       ascii ''### Required Sections'' @ [10],
       [10],
       ascii ''1. **Executive Summary** '' @ [8212] @ ascii '' 2-3 paragraph overview of the product '',
       ascii ''opportunity, target users, and proposed solution.'' @ [10],
       [10],
       ascii ''2. **Problem Statement** '' @ [8212] @ ascii '' detailed description of the problems being '',
       ascii ''solved. Include specific examples from the video call (reference '',
       ascii ''timestamps and quotes).'' @ [10],
       [10],
       ascii ''3. **User Personas** '' @ [8212] @ ascii '' detailed persona cards for each user type '',
       ascii ''identified. Include goals, frustrations, technical proficiency, and '',
       ascii ''day-in-the-life scenarios.'' @ [10],
       [10],
       ascii ''4. **Current Workflow** '' @ [8212] @ ascii '' step-by-step walkthrough of how users '',
       ascii ''accomplish their tasks today, with specific tools and data sources '',
       ascii ''referenced. Highlight friction points at each step.'' @ [10],
       [10],
       ascii ''5. **Proposed Solution** '' @ [8212] @ ascii '' high-level description of the product. What '',
       ascii ''it does, how it differs from current approaches, and the core value '',
       ascii ''proposition.'' @ [10],
       [10],
       ascii ''6. **User Stories** '' @ [8212] @ ascii '' organized by priority:'' @ [10],
       ascii ''   - P0 (Must Have for MVP)'' @ [10],
       ascii ''   - P1 (Should Have for V1)'' @ [10],
       ascii ''   - P2 (Nice to Have for V2)'' @ [10],
       ascii ''   Format: \"As a [persona], I want to [action] so that [benefit]\" with '',
       ascii ''acceptance criteria.'' @ [10],
       [10],
       ascii ''7. **Technical Architecture** '' @ [8212] @ ascii '' system architecture including:'' @ [10],
       ascii ''   - High-level architecture diagram (described textually)'' @ [10],
       ascii ''   - Key components and their responsibilities'' @ [10],
       ascii ''   - Data flow between components'' @ [10],
       ascii ''   - Third-party integrations required'' @ [10],
       [10],
       ascii ''8. **Data Model** '' @ [8212] @ ascii '' key entities, their attributes, and relationships. '',
       ascii ''Present as a schema description.'' @ [10],
       [10],
       ascii ''9. **API Design** '' @ [8212] @ ascii '' key API endpoints with methods, paths, '',
       ascii ''request/response shapes. Focus on the core domain operations.'' @ [10],
       [10],
       ascii ''10. **MVP Scope** '' @ [8212] @ ascii '' clearly defined MVP boundary. What'' @ [39] @ ascii ''s in, what'' @ [39] @ ascii ''s '',
       ascii ''out, and why.'' @ [10],
       [10],
       ascii ''11. **Implementation Phases**:'' @ [10],
       ascii ''    - **MVP** (4-6 weeks): core features, minimum viable product'' @ [10],
       ascii ''    - **V1** (8-12 weeks): full feature set for initial launch'' @ [10],
       ascii ''    - **V2** (16-24 weeks): advanced features, scale, optimization'' @ [10],
       ascii ''    Each phase should list specific features, technical tasks, and '',
       ascii ''milestones.'' @ [10],
       [10],
       ascii ''12. **Success Metrics** '' @ [8212] @ ascii '' quantitative and qualitative metrics to '',
       ascii ''measure product success. Include baseline measurements where available '',
       ascii ''from the synthesis.'' @ [10],
       [10],
       ascii ''13. **Appendix: Visual Evidence** '' @ [8212] @ ascii '' key observations from screen shares '',
       ascii ''organized by theme. Reference specific tools, data fields, and UI '',
       ascii ''patterns observed in the video. This section should help engineers '',
       ascii ''understand the domain by seeing what users actually work with.'' @ [10],
       [10],
       ascii ''### Writing Guidelines'' @ [10],
       ascii ''- Be specific, not generic. Reference actual data fields, tool names, '',
       ascii ''and workflows from the synthesis.'' @ [10],
       ascii ''- Include concrete numbers where available.'' @ [10],
       ascii ''- User stories should have clear acceptance criteria.'' @ [10],
       ascii ''- Technical sections should be implementable by an engineering team.'' @ [10],
       ascii ''- The PRD should stand alone '' @ [8212] @ ascii '' a reader shouldn'' @ [39] @ ascii ''t need to watch the '',
       ascii ''video.'' @ [10],
       [10],
       ascii ''Output the complete PRD in Markdown format.'' @ [10]]"

text \<open>
  \<open>run_phase1\<close>. The API key only configures the client and is not part of the model.
\<close>

definition run_phase1 :: "world \<Rightarrow> path \<Rightarrow> ustr \<Rightarrow> path \<Rightarrow> json prog" where
  "run_phase1 w video_path srt_content cache_dir =
     pseq (print_out rule60)
    (pseq (print_out (ascii ''PHASE 1: Visual Extraction (Gemini 2.5 Pro)''))
    (pseq (print_out rule60)
    (pbind (stat_size_mb w video_path) (\<lambda>file_size_mb.
     pseq (progress (ascii ''  Uploading video: '' @ path_str video_path @ ascii '' (''
                     @ file_size_mb @ ascii '' MB)''))
    (pseq (remote_call (FilesUpload video_path))
    (pbind (lift_exn (upload_reply w)) (\<lambda>video_file.
     pbind (elapsed_now w) (\<lambda>e.
     pseq (progress ([32, 32, 10003] @ ascii '' Upload complete in '' @ e @ ascii ''. File: ''
                     @ vf_name video_file))
    (pseq (progress (ascii ''  Waiting for file processing...''))
    (pbind (poll_loop w (get_replies w) video_file) (\<lambda>video_file.
     pseq (do_when (vf_state video_file = ascii ''FAILED'') (raise RuntimeError))
    (pbind (elapsed_now w) (\<lambda>e.
     pseq (progress ([32, 32, 10003] @ ascii '' File ready ('' @ e @ ascii '')''))
    (pbind (stream_gemini w (pro_stream w) (ascii ''gemini-2.5-pro'')
              (VideoAndText (vf_uri video_file) (vf_mime_type video_file)
                 (PHASE1_PROMPT srt_content))
              (ascii ''Visual analysis'')) (\<lambda>raw_text.
     pbind (lift_exn (strip_fences raw_text)) (\<lambda>raw_text.
     pbind (loads w raw_text) (\<lambda>result.
     pseq (write_text w None (cache_dir @ [ascii ''visual_analysis.json''])
             (json_dumps False result))
    (pbind (lift_exn (json_get_list result (ascii ''observations''))) (\<lambda>obs.
     pbind (lift_exn (json_len obs)) (\<lambda>obs_count.
     pseq (print_out (ascii ''  Saved: ''
                      @ path_str (cache_dir @ [ascii ''visual_analysis.json''])))
    (pseq (print_out (ascii ''  '' @ py_str_int (int obs_count)
                      @ ascii '' visual observations extracted''))
    (pseq (files_delete w video_file)
    (pbind (elapsed_now w) (\<lambda>e.
     pseq (print_out (ascii ''  Phase 1 total: '' @ e))
          (ret result)))))))))))))))))))))))))"

definition count_line :: "json \<Rightarrow> ustr \<Rightarrow> ustr \<Rightarrow> unit prog" where
  "count_line result key what =
     pbind (lift_exn (json_get_list result key)) (\<lambda>v.
     pbind (lift_exn (json_len v)) (\<lambda>n.
     print_out (ascii ''  '' @ py_str_int (int n) @ what)))"

definition run_phase2 :: "world \<Rightarrow> json \<Rightarrow> ustr \<Rightarrow> path \<Rightarrow> json prog" where
  "run_phase2 w visual_analysis srt_content cache_dir =
     pseq (print_out (10 # rule60))
    (pseq (print_out (ascii ''PHASE 2: Synthesis (Gemini 2.5 Flash)''))
    (pseq (print_out rule60)
    (pbind (stream_gemini w (flash_stream w) (ascii ''gemini-2.5-flash'')
              (TextPrompt (PHASE2_PROMPT (json_dumps False visual_analysis) srt_content))
              (ascii ''Synthesis'')) (\<lambda>raw_text.
     pbind (lift_exn (strip_fences raw_text)) (\<lambda>raw_text.
     pbind (loads w raw_text) (\<lambda>result.
     pseq (write_text w None (cache_dir @ [ascii ''synthesis.json'']) (json_dumps False result))
    (pseq (print_out (ascii ''  Saved: '' @ path_str (cache_dir @ [ascii ''synthesis.json''])))
    (pseq (count_line result (ascii ''pain_points'') (ascii '' pain points identified''))
    (pseq (count_line result (ascii ''current_workflows'') (ascii '' workflows documented''))
    (pseq (count_line result (ascii ''user_personas'') (ascii '' user personas identified''))
    (pbind (elapsed_now w) (\<lambda>e.
     pseq (print_out (ascii ''  Phase 2 total: '' @ e))
          (ret result)))))))))))))"

text \<open>
  The loop of phase 3 over the streamed events: \<open>event.choices[0]\<close> raises on an event
  without choices; a missing delta or content, or an empty content, is skipped.
\<close>

fun prd_loop ::
  "world \<Rightarrow> event list \<Rightarrow> ustr list \<times> int \<times> int \<Rightarrow> (ustr list \<times> int \<times> int) prog"
where
  "prd_loop w [] acc = ret acc"
| "prd_loop w (choices # rest) (chunks, char_count, last_report) =
     (case choices of
        [] \<Rightarrow> raise IndexError
      | choice0 # others \<Rightarrow>
          (case (case choice0 of None \<Rightarrow> None | Some content \<Rightarrow> content) of
             None \<Rightarrow> prd_loop w rest (chunks, char_count, last_report)
           | Some t \<Rightarrow>
               if t = [] then prd_loop w rest (chunks, char_count, last_report)
               else if char_count + int (length t) - last_report \<ge> 2000 then
                 pbind (elapsed_now w) (\<lambda>e.
                 pseq (progress (ascii ''  ... PRD generation: ''
                                 @ fmt_thousands (char_count + int (length t))
                                 @ ascii '' chars ('' @ e @ ascii '')''))
                      (prd_loop w rest
                         (chunks @ [t], char_count + int (length t),
                          char_count + int (length t))))
               else prd_loop w rest
                      (chunks @ [t], char_count + int (length t), last_report)))"

definition system_message :: ustr where
  "system_message =
     ascii ''You are a senior product manager and technical architect producing a detailed PRD.''"

definition run_phase3 :: "world \<Rightarrow> json \<Rightarrow> path \<Rightarrow> ustr prog" where
  "run_phase3 w synthesis output_path =
     pseq (print_out (10 # rule60))
    (pseq (print_out (ascii ''PHASE 3: PRD Generation (OpenAI gpt-5.2)''))
    (pseq (print_out rule60)
    (pseq (progress (ascii ''  Streaming from gpt-5.2...''))
    (pseq (remote_call (ChatCompletionsCreate (ascii ''gpt-5.2'')
              [(ascii ''system'', system_message),
               (ascii ''user'', PHASE3_PROMPT (json_dumps False synthesis))]
              (ascii ''0.3'') 16384))
    (pbind (prd_loop w (fst (openai_stream w)) ([], 0, 0)) (\<lambda>(chunks, char_count, last_report).
     pseq (case snd (openai_stream w) of None \<Rightarrow> ret () | Some e \<Rightarrow> raise e)
    (pbind (elapsed_now w) (\<lambda>e.
     pseq (progress ([32, 32, 10003] @ ascii '' PRD generation: '' @ fmt_thousands char_count
                     @ ascii '' chars total ('' @ e @ ascii '')''))
    (pseq (write_text w (Some UTF8) output_path (concat chunks))
    (pseq (print_out (ascii ''  Saved: '' @ path_str output_path))
    (pseq (print_out (ascii ''  ''
              @ py_str_int (int (length (filter (\<lambda>line. startswith line (ascii ''## ''))
                                           (py_split_char 10 (concat chunks)))))
              @ ascii '' top-level sections, ''
              @ fmt_thousands (int (length (py_split_ws (concat chunks))))
              @ ascii '' words''))
    (pbind (elapsed_now w) (\<lambda>e.
     pseq (print_out (ascii ''  Phase 3 total: '' @ e))
          (ret (concat chunks)))))))))))))))"

section \<open>video\_to\_plan: the driver\<close>

text \<open>
  The parsed command line: the three paths resolved, the two key options, and
  \<open>--phase\<close> (the parser admits 1, 2 and 3).
\<close>

record args =
  arg_video :: path
  arg_subtitles :: path
  arg_output :: path
  arg_gemini_key :: "ustr option"
  arg_openai_key :: "ustr option"
  arg_phase :: "int option"

definition gemini_key_error :: ustr where
  "gemini_key_error =
     ascii ''Error: Gemini API key required for phases 1-2. Set GEMINI_API_KEY or use --gemini-key.''"

definition openai_key_error :: ustr where
  "openai_key_error =
     ascii ''Error: OpenAI API key required for phase 3. Set OPENAI_API_KEY or use --openai-key.''"

definition phase2_prereq_error :: "path \<Rightarrow> ustr" where
  "phase2_prereq_error cache_dir =
     ascii ''Error: Phase 2 requires visual_analysis.json in '' @ path_str cache_dir
     @ ascii ''. Run phase 1 first.''"

definition phase3_prereq_error :: "path \<Rightarrow> ustr" where
  "phase3_prereq_error cache_dir =
     ascii ''Error: Phase 3 requires synthesis.json in '' @ path_str cache_dir
     @ ascii ''. Run phase 2 first.''"

definition main :: "world \<Rightarrow> args \<Rightarrow> unit prog" where
  "main w a =
     (let gemini_key = py_or (arg_gemini_key a) (env_gemini_api_key w);
          openai_key = py_or (arg_openai_key a) (env_openai_api_key w);
          phases_to_run = (case arg_phase a of None \<Rightarrow> [1, 2, 3] | Some p \<Rightarrow> [p]);
          video_path = arg_video a;
          srt_path = arg_subtitles a;
          output_path = arg_output a;
          cache_dir = butlast output_path @ [ascii ''.cache'']
      in
      pseq (do_when (list_ex (\<lambda>p. p \<in> set [1, 2]) phases_to_run \<and> \<not> truthy gemini_key)
              (pseq (print_err gemini_key_error) (sys_exit 1)))
     (pseq (do_when (3 \<in> set phases_to_run \<and> \<not> truthy openai_key)
              (pseq (print_err openai_key_error) (sys_exit 1)))
     (pseq (mkdir True True cache_dir)
     (pbind (exists_p video_path) (\<lambda>video_exists.
      pseq (do_when (\<not> video_exists)
              (pseq (print_err (ascii ''Error: Video file not found: '' @ path_str video_path))
                    (sys_exit 1)))
     (pbind (exists_p srt_path) (\<lambda>srt_exists.
      pseq (do_when (\<not> srt_exists)
              (pseq (print_err (ascii ''Error: Subtitle file not found: '' @ path_str srt_path))
                    (sys_exit 1)))
     (pbind (read_text w (Some UTF8) srt_path) (\<lambda>srt_content.
      pseq (print_out (ascii ''Video:     '' @ path_str video_path))
     (pseq (print_out (ascii ''Subtitles: '' @ path_str srt_path))
     (pseq (print_out (ascii ''Output:    '' @ path_str output_path))
     (pseq (print_out (ascii ''Cache:     '' @ path_str cache_dir))
     (pseq (print_out (ascii ''Phases:    '' @ repr_int_list phases_to_run))
     (pseq (print_out [])
     (pbind
        (if 1 \<in> set phases_to_run then run_phase1 w video_path srt_content cache_dir
         else
           pbind (exists_p (cache_dir @ [ascii ''visual_analysis.json''])) (\<lambda>cached_exists.
             if cached_exists then
               pbind (read_text w None (cache_dir @ [ascii ''visual_analysis.json''])) (\<lambda>t.
               pbind (loads w t) (\<lambda>doc.
               pseq (print_out (ascii ''Loaded cached visual analysis: ''
                        @ path_str (cache_dir @ [ascii ''visual_analysis.json''])))
                    (ret doc)))
             else if list_ex (\<lambda>p. p \<in> set [2]) phases_to_run then
               pseq (print_err (phase2_prereq_error cache_dir)) (sys_exit 1)
             else ret JNull))
        (\<lambda>visual_analysis.
      pbind
        (if 2 \<in> set phases_to_run then run_phase2 w visual_analysis srt_content cache_dir
         else
           pbind (exists_p (cache_dir @ [ascii ''synthesis.json''])) (\<lambda>cached_exists.
             if cached_exists then
               pbind (read_text w None (cache_dir @ [ascii ''synthesis.json''])) (\<lambda>t.
               pbind (loads w t) (\<lambda>doc.
               pseq (print_out (ascii ''Loaded cached synthesis: ''
                        @ path_str (cache_dir @ [ascii ''synthesis.json''])))
                    (ret doc)))
             else if 3 \<in> set phases_to_run then
               pseq (print_err (phase3_prereq_error cache_dir)) (sys_exit 1)
             else ret JNull))
        (\<lambda>synthesis.
      pseq (do_when (3 \<in> set phases_to_run)
              (pbind (run_phase3 w synthesis output_path) (\<lambda>prd. ret ())))
     (pseq (print_out (10 # rule60))
     (pbind (elapsed_now w) (\<lambda>e.
      pseq (print_out (ascii ''DONE '' @ [8212] @ ascii '' total time: '' @ e))
     (pseq (print_out rule60)
           (do_when (3 \<in> set phases_to_run)
              (print_out (ascii ''PRD written to: '' @ path_str output_path))))))))))))))))))))))))"

section \<open>promote\_plan\<close>

definition prd_bullet :: ustr where
  "prd_bullet = ascii ''- **PRD.md** '' @ [8212] @ ascii '' Product Requirements Document''"

definition visual_bullet :: ustr where
  "visual_bullet =
     ascii ''- **artifacts/visual_analysis.json** '' @ [8212]
     @ ascii '' Timestamped visual observations from source video''"

definition synthesis_bullet :: ustr where
  "synthesis_bullet =
     ascii ''- **artifacts/synthesis.json** '' @ [8212]
     @ ascii '' Synthesized pain points, workflows, and requirements''"

definition metadata_bullet :: ustr where
  "metadata_bullet = ascii ''- **artifacts/metadata.json** '' @ [8212] @ ascii '' Promotion metadata''"

text \<open>
  The loop of \<open>promote\<close> over the two artifact file names, on the list
  \<open>copied_artifacts\<close>: a name that does not exist in the cache is skipped.
\<close>

fun copy_artifacts :: "path \<Rightarrow> path \<Rightarrow> ustr list \<Rightarrow> ustr list \<Rightarrow> ustr list prog" where
  "copy_artifacts cache_dir dest [] copied_artifacts = ret copied_artifacts"
| "copy_artifacts cache_dir dest (filename # rest) copied_artifacts =
     pbind (exists_p (cache_dir @ [filename])) (\<lambda>src_exists.
       if src_exists then
         pseq (copy2 (cache_dir @ [filename]) (dest @ [ascii ''artifacts'', filename]))
        (pseq (print_out (ascii ''  Copied artifact '' @ [8594] @ ascii '' artifacts/'' @ filename))
              (copy_artifacts cache_dir dest rest (copied_artifacts @ [filename])))
       else copy_artifacts cache_dir dest rest copied_artifacts)"

text \<open>The metadata dictionary and the lines of the README, as \<open>promote\<close> builds them.\<close>

definition metadata :: "world \<Rightarrow> ustr \<Rightarrow> path \<Rightarrow> path \<Rightarrow> ustr list \<Rightarrow> json" where
  "metadata w name plan_path cache_dir copied_artifacts =
     JObj [(ascii ''name'', JStr name),
           (ascii ''promoted_at'', JStr (now_isoformat w)),
           (ascii ''source_plan'', JStr (path_str plan_path)),
           (ascii ''source_cache'', JStr (path_str cache_dir)),
           (ascii ''artifacts'', JArr (map JStr copied_artifacts))]"

definition readme_lines :: "world \<Rightarrow> ustr \<Rightarrow> ustr list \<Rightarrow> ustr list" where
  "readme_lines w name copied_artifacts =
     [ascii ''# '' @ name,
      [],
      ascii ''Engineering plan promoted on '' @ now_date w @ ascii ''.'',
      [],
      ascii ''## Contents'',
      [],
      prd_bullet]
     @ (if ascii ''visual_analysis.json'' \<in> set copied_artifacts then [visual_bullet] else [])
     @ (if ascii ''synthesis.json'' \<in> set copied_artifacts then [synthesis_bullet] else [])
     @ [metadata_bullet]
     @ [[]]"

definition promote :: "world \<Rightarrow> ustr \<Rightarrow> path \<Rightarrow> path \<Rightarrow> path \<Rightarrow> path prog" where
  "promote w name plan_path cache_dir output_root =
     (let dest = output_root @ [name] in
      pbind (exists_p dest) (\<lambda>dest_exists.
      pseq (do_when dest_exists
              (pseq (print_err (ascii ''Error: directory already exists: '' @ path_str dest))
              (pseq (print_err (ascii ''  Pick a different name or remove it first.''))
                    (sys_exit 1))))
     (pseq (mkdir True False dest)
     (pseq (mkdir False False (dest @ [ascii ''artifacts'']))
     (pseq (copy2 plan_path (dest @ [ascii ''PRD.md'']))
     (pseq (print_out (ascii ''  Copied plan '' @ [8594, 32] @ path_str (dest @ [ascii ''PRD.md''])))
     (pbind (copy_artifacts cache_dir dest
               [ascii ''visual_analysis.json'', ascii ''synthesis.json''] [])
        (\<lambda>copied_artifacts.
      pseq (write_text w None (dest @ [ascii ''artifacts'', ascii ''metadata.json''])
              (json_dumps True (metadata w name plan_path cache_dir copied_artifacts) @ [10]))
     (pseq (write_text w None (dest @ [ascii ''README.md''])
              (py_join [10] (readme_lines w name copied_artifacts)))
     (pseq (print_out (ascii ''  Generated '' @ [8594] @ ascii '' README.md''))
           (ret dest)))))))))))"

text \<open>The parsed command line of the promotion utility, its three paths resolved.\<close>

record promote_args =
  parg_name :: ustr
  parg_plan :: path
  parg_cache :: path
  parg_output_root :: path

definition promote_main :: "world \<Rightarrow> promote_args \<Rightarrow> unit prog" where
  "promote_main w a =
     pbind (exists_p (parg_plan a)) (\<lambda>plan_exists.
     pseq (do_when (\<not> plan_exists)
             (pseq (print_err (ascii ''Error: plan not found: '' @ path_str (parg_plan a)))
                   (sys_exit 1)))
    (pbind (exists_p (parg_cache a)) (\<lambda>cache_exists.
     pbind (if cache_exists then ret (parg_cache a)
            else
              pseq (print_err (ascii ''Warning: cache directory not found: ''
                               @ path_str (parg_cache a)))
             (pseq (print_err (ascii ''  Promoting plan without artifacts.''))
                   (ret [ascii ''nonexistent''])))
       (\<lambda>cache_dir.
     pseq (print_out (ascii ''Promoting: '' @ parg_name a))
    (pbind (promote w (parg_name a) (parg_plan a) cache_dir (parg_output_root a)) (\<lambda>dest.
     pseq (print_out (10 # ascii ''Done. Directory ready at: '' @ path_str dest))
          (print_out (10 # ascii ''  cd '' @ path_str dest
                      @ ascii '' && git init && git add -A && git commit -m '' @ [39]
                      @ ascii ''Initial PRD'' @ [39]))))))))"

section \<open>Well-formed file systems and sample inputs\<close>

text \<open>
  In a well-formed file system every entry but the root lies in a directory. The sample
  world, files and state are the concrete inputs at which the theorems are instantiated.
\<close>

definition wf_fs :: "filesystem \<Rightarrow> bool" where
  "wf_fs fs = (\<forall>p. p \<noteq> [] \<and> fs p \<noteq> None \<longrightarrow> lookup fs (butlast p) = Some Dir)"

definition sample_world :: world where
  "sample_world =
     \<lparr>env_gemini_api_key = None,
      env_openai_api_key = Some (ascii ''sk-sample''),
      locale_encoding = UTF8,
      json_loads = (\<lambda>t. if t = ascii ''{}'' then Some (JObj []) else None),
      secs_at = (\<lambda>k. 61),
      size_mb_text = ascii ''1.0'',
      upload_reply = Inl RemoteError,
      get_replies = [],
      delete_reply = None,
      pro_stream = ([], None),
      flash_stream = ([Some (ascii ''{}'')], None),
      openai_stream = ([], None),
      now_isoformat = ascii ''2026-01-02T03:04:05.000006'',
      now_date = ascii ''2026-01-02''\<rparr>"

definition sample_files :: filesystem where
  "sample_files =
     [[ascii ''work''] \<mapsto> Dir,
      [ascii ''work'', ascii ''call.mp4''] \<mapsto> File [0, 0, 0, 24],
      [ascii ''work'', ascii ''call.srt''] \<mapsto> File [49, 10],
      [ascii ''work'', ascii ''engineering_plan.md''] \<mapsto> File [35, 32, 80],
      [ascii ''work'', ascii ''.cache''] \<mapsto> Dir,
      [ascii ''work'', ascii ''.cache'', ascii ''visual_analysis.json''] \<mapsto> File [123, 125]]"

definition sample_state :: state where
  "sample_state = \<lparr>files = sample_files, stdout = [], stderr = [], calls = [], ticks = 0\<rparr>"

definition sample_args :: "int option \<Rightarrow> args" where
  "sample_args p =
     \<lparr>arg_video = [ascii ''work'', ascii ''call.mp4''],
      arg_subtitles = [ascii ''work'', ascii ''call.srt''],
      arg_output = [ascii ''work'', ascii ''engineering_plan.md''],
      arg_gemini_key = None,
      arg_openai_key = None,
      arg_phase = p\<rparr>"

definition latin1_world :: world where
  "latin1_world =
     sample_world
       \<lparr>locale_encoding := Latin1,
        flash_stream := ([Some (ascii ''{\"a\": \"'' @ [233] @ ascii ''\"}'')], None),
        json_loads := (\<lambda>t. if t = ascii ''{\"a\": \"'' @ [233] @ ascii ''\"}''
                            then Some (JObj [(ascii ''a'', JStr [233])]) else None)\<rparr>"

text \<open>The cache directory of a run: \<open>.cache\<close> beside the output file.\<close>

definition cache_dir_of :: "args \<Rightarrow> path" where
  "cache_dir_of a = butlast (arg_output a) @ [ascii ''.cache'']"

text \<open>
  \<open>emits E C m\<close>: whatever the state it starts in and however it ends, the statement \<open>m\<close>
  only appends to standard error, and only lines of \<open>E\<close>, and only appends to the requests
  sent, and only requests of \<open>C\<close>.
\<close>

definition emits :: "ustr set \<Rightarrow> call set \<Rightarrow> 'a prog \<Rightarrow> bool" where
  "emits E C m =
     (\<forall>s. (\<exists>l. stderr (snd (m s)) = stderr s @ l \<and> set l \<subseteq> E)
        \<and> (\<exists>l. calls (snd (m s)) = calls s @ l \<and> set l \<subseteq> C))"

section \<open>Facts about the string helpers\<close>

lemma ascii_Nil [simp]: "ascii [] = []"
  by (simp add: ascii_def)

lemma ascii_eq_iff [simp]: "ascii a = ascii b \<longleftrightarrow> a = b"
  unfolding ascii_def by (rule inj_map_eq_map) (rule inj_of_char)

lemma fence_eq: "fence = [96, 96, 96]"
  by (simp add: fence_def ascii_def)

lemma digits_small: "n < 10 \<Longrightarrow> digits n = [48 + n]"
  by (simp add: digits.simps)

text \<open>
  \<open>str.strip()\<close> leaves a string alone that neither starts nor ends with white space,
  its result is such a string, and so it is idempotent.
\<close>

lemma py_strip_trimmed_id:
  assumes "x = [] \<or> (\<not> is_space (hd x) \<and> \<not> is_space (last x))"
  shows "py_strip x = x"
proof (cases "x = []")
  case True
  then show ?thesis by (simp add: py_strip_def)
next
  case False
  with assms have h: "\<not> is_space (hd x)" and l: "\<not> is_space (last x)" by auto
  from False h have a: "dropWhile is_space x = x"
    by (simp add: dropWhile_eq_self_iff)
  from False l have "dropWhile is_space (rev x) = rev x"
    by (simp add: dropWhile_eq_self_iff hd_rev)
  with a show ?thesis by (simp add: py_strip_def)
qed

lemma py_strip_is_trimmed:
  "py_strip s = [] \<or> (\<not> is_space (hd (py_strip s)) \<and> \<not> is_space (last (py_strip s)))"
proof (cases "py_strip s = []")
  case True
  then show ?thesis by simp
next
  case False
  let ?t = "dropWhile is_space s"
  let ?u = "dropWhile is_space (rev ?t)"
  from False have u: "?u \<noteq> []" by (simp add: py_strip_def)
  have t: "?t \<noteq> []"
  proof
    assume e: "?t = []"
    have "?u = []" unfolding e by (simp only: rev.simps dropWhile.simps)
    with u show False by contradiction
  qed
  have "\<not> is_space (hd ?u)" using u by (rule hd_dropWhile)
  then have l: "\<not> is_space (last (rev ?u))" using u by (simp add: last_rev)
  have "rev ?t = takeWhile is_space (rev ?t) @ ?u" by simp
  then have "?t = rev ?u @ rev (takeWhile is_space (rev ?t))"
    by (metis rev_append rev_rev_ident)
  then have "hd ?t = hd (rev ?u)" using u
    by (metis hd_append2 rev_is_Nil_conv)
  moreover have "\<not> is_space (hd ?t)" using t by (rule hd_dropWhile)
  ultimately show ?thesis using l by (simp add: py_strip_def)
qed

lemma py_strip_idem: "py_strip (py_strip s) = py_strip s"
  by (rule py_strip_trimmed_id) (rule py_strip_is_trimmed)

lemma py_strip_padded:
  assumes pre: "list_all is_space pre" and post: "list_all is_space post"
    and ne: "x \<noteq> []" and h: "\<not> is_space (hd x)" and l: "\<not> is_space (last x)"
  shows "py_strip (pre @ x @ post) = x"
proof -
  from pre have "dropWhile is_space (pre @ x @ post) = dropWhile is_space (x @ post)"
    by (simp add: list_all_iff)
  also from ne h have "\<dots> = x @ post"
    by (simp add: dropWhile_eq_self_iff)
  finally have a: "dropWhile is_space (pre @ x @ post) = x @ post" .
  from post have "\<And>y. y \<in> set (rev post) \<Longrightarrow> is_space y"
    by (simp add: list_all_iff)
  then have "dropWhile is_space (rev post @ rev x) = dropWhile is_space (rev x)"
    by (rule dropWhile_append2)
  then have "dropWhile is_space (rev (x @ post)) = dropWhile is_space (rev x)"
    by simp
  also from ne l have "\<dots> = rev x"
    by (simp add: dropWhile_eq_self_iff hd_rev)
  finally show ?thesis using a by (simp add: py_strip_def)
qed

lemma find_sep_single:
  "c \<notin> set a \<Longrightarrow> find_sep [c] (a @ c # b) = Some (a, b)"
  by (induction a) (auto simp: startswith_def)

lemma rfind_sep_fence_suffix: "rfind_sep fence (body @ fence) = Some (body, [])"
  by (induction body) (auto simp: startswith_def fence_eq)

section \<open>Fence stripping\<close>

lemma strip_fences_unfenced:
  assumes "\<not> startswith (py_strip t) fence"
  shows "strip_fences t = Inr (py_strip t)"
    and "strip_fences (py_strip t) = Inr (py_strip t)"
  using assms by (simp_all add: strip_fences_def py_strip_idem)

lemma strip_fences_fenced:
  assumes pre: "list_all is_space pre" and post: "list_all is_space post"
    and lang: "10 \<notin> set lang"
  shows "strip_fences (pre @ fence @ lang @ [10] @ body @ fence @ post) = Inr (py_strip body)"
proof -
  let ?x = "fence @ lang @ [10] @ body @ fence"
  have "py_strip (pre @ ?x @ post) = ?x"
    using pre post by (rule py_strip_padded) (simp_all add: fence_eq is_space_def)
  then have s: "py_strip (pre @ fence @ lang @ [10] @ body @ fence @ post) = ?x" by simp
  have sw: "startswith ?x fence" by (simp add: startswith_def)
  have "find_sep [10] ((fence @ lang) @ 10 # (body @ fence)) = Some (fence @ lang, body @ fence)"
    using lang by (intro find_sep_single) (simp add: fence_eq)
  then have sp: "py_split1 ?x [10] = [fence @ lang, body @ fence]"
    by (simp add: py_split1_def)
  have ew: "endswith (body @ fence) fence" by (simp add: endswith_def)
  have rs: "py_rsplit1 (body @ fence) fence = [body, []]"
    by (simp add: py_rsplit1_def rfind_sep_fence_suffix)
  show ?thesis
    unfolding strip_fences_def s Let_def using sw sp ew rs by (simp add: py_index_def)
qed

text \<open>
  Claim C1. When the text, trimmed of surrounding white space, opens with a fence line
  (three backticks, anything up to the first newline) and closes with three backticks,
  \<open>strip_fences\<close> removes exactly that opening line and that closing fence and trims what
  is left: fences inside \<open>body\<close> stay. On text whose trimmed form does not open with a
  fence the function only trims, and applying it again to its result changes nothing.
\<close>

theorem strip_fences_removes_one_pair_and_idempotent:
  "(list_all is_space pre \<and> list_all is_space post \<and> 10 \<notin> set lang \<longrightarrow>
      strip_fences (pre @ fence @ lang @ [10] @ body @ fence @ post) = Inr (py_strip body))
   \<and> (\<not> startswith (py_strip t) fence \<longrightarrow>
      strip_fences t = Inr (py_strip t)
      \<and> (\<forall>r. strip_fences t = Inr r \<longrightarrow> strip_fences r = Inr r))"
  using strip_fences_fenced [of pre post lang body] strip_fences_unfenced [of t]
  by auto

theorem strip_fences_removes_one_pair_and_idempotent_witness:
  "strip_fences (ascii '' '' @ fence @ ascii ''json'' @ [10] @ (ascii ''{}'' @ fence @ [10]) @ fence @ [10])
     = Inr (ascii ''{}'' @ fence)
   \<and> strip_fences (ascii '' {} '') = Inr (ascii ''{}'')
   \<and> strip_fences (ascii ''{}'') = Inr (ascii ''{}'')"
proof -
  have p: "list_all is_space (ascii '' '') \<and> list_all is_space [10] \<and> 10 \<notin> set (ascii ''json'')"
    by (simp add: ascii_def is_space_def)
  have s: "py_strip (ascii ''{}'' @ fence @ [10]) = ascii ''{}'' @ fence"
    by (simp add: py_strip_def ascii_def fence_eq is_space_def)
  have t: "py_strip (ascii '' {} '') = ascii ''{}''"
    by (simp add: py_strip_def ascii_def is_space_def)
  have n: "\<not> startswith (py_strip (ascii '' {} '')) fence"
    unfolding t by (simp add: startswith_def ascii_def fence_eq)
  note inst = strip_fences_removes_one_pair_and_idempotent
    [of "ascii '' ''" "[10]" "ascii ''json''" "ascii ''{}'' @ fence @ [10]" "ascii '' {} ''"]
  from inst p s have a: "strip_fences (ascii '' '' @ fence @ ascii ''json'' @ [10]
      @ (ascii ''{}'' @ fence @ [10]) @ fence @ [10]) = Inr (ascii ''{}'' @ fence)"
    by simp
  from inst n t have b: "strip_fences (ascii '' {} '') = Inr (ascii ''{}'')"
    and c: "strip_fences (ascii ''{}'') = Inr (ascii ''{}'')"
    by simp_all
  from a b c show ?thesis by simp
qed

text \<open>
  Claim C10. \<open>strip_fences\<close> does not return a string for every input: on the text that is
  three backticks alone the trimmed text opens with a fence and has no newline, the split
  yields one element, and reading element 1 raises \<open>IndexError\<close>.
\<close>

theorem strip_fences_fence_alone_raises:
  "strip_fences (ascii ''```'') = Inl IndexError"
  by (simp add: strip_fences_def py_strip_def is_space_def ascii_def fence_def startswith_def
      py_split1_def py_index_def)

section \<open>Elapsed-time formatting\<close>

text \<open>
  Claim C8. For a non-negative whole number of seconds \<open>d\<close> the formatter gives the decimal
  numeral of \<open>d\<close> followed by \<open>s\<close> below one minute, and from one minute on the numeral of
  \<open>d div 60\<close>, \<open>m\<close>, a space, the numeral of \<open>d mod 60\<close> and \<open>s\<close>; 60 gives \<open>1m 0s\<close> and 125
  gives \<open>2m 5s\<close>.
\<close>

theorem elapsed_format:
  assumes "0 \<le> d"
  shows "(d < 60 \<longrightarrow> elapsed d = py_str_int d @ ascii ''s'')
       \<and> (60 \<le> d \<longrightarrow>
            elapsed d = py_str_int (d div 60) @ ascii ''m '' @ py_str_int (d mod 60) @ ascii ''s'')
       \<and> elapsed 60 = ascii ''1m 0s''
       \<and> elapsed 125 = ascii ''2m 5s''"
  by (simp add: elapsed_def py_str_int_def digits_small ascii_def)

theorem elapsed_format_witness:
  "elapsed 59 = ascii ''59s'' \<and> elapsed 60 = ascii ''1m 0s'' \<and> elapsed 3725 = ascii ''62m 5s''"
proof -
  have h: "(0::int) \<le> 59" and k: "(0::int) \<le> 3725" by simp_all
  have d59: "py_str_int 59 = ascii ''59''" and d62: "py_str_int 62 = ascii ''62''"
    and d5: "py_str_int 5 = ascii ''5''"
    by (simp_all add: py_str_int_def digits.simps ascii_def)
  from elapsed_format [OF h] d59 have a: "elapsed 59 = ascii ''59s''"
    by (simp add: ascii_def)
  from elapsed_format [OF k] d62 d5 have b: "elapsed 3725 = ascii ''62m 5s''"
    by (simp add: ascii_def)
  from elapsed_format [OF h] a b show ?thesis by simp
qed

section \<open>Running statements\<close>

lemmas prog_defs = ret_def raise_def sys_exit_def pbind_def pseq_def do_when_def lift_exn_def
  print_out_def print_err_def remote_call_def elapsed_now_def exists_p_def progress_def

lemma stream_loop_concat:
  "\<exists>chunks1 n1 r1 s1.
     stream_loop w label frags (chunks, n, r) s = (Ok (chunks1, n1, r1), s1)
     \<and> concat chunks1 = concat chunks @ concat (map (\<lambda>f. case f of None \<Rightarrow> [] | Some t \<Rightarrow> t) frags)"
proof (induction frags arbitrary: chunks n r s)
  case Nil
  then show ?case by (simp add: ret_def)
next
  case (Cons f frags)
  show ?case
  proof (cases f)
    case None
    then show ?thesis using Cons.IH [of chunks n r s] by simp
  next
    case (Some t)
    show ?thesis
    proof (cases "t = []")
      case True
      then show ?thesis using Some Cons.IH [of chunks n r s] by simp
    next
      case False
      let ?n = "n + int (length t)"
      show ?thesis
      proof (cases "?n - r \<ge> 2000")
        case True
        obtain e s2 where s2: "pbind (elapsed_now w) (\<lambda>e.
            pseq (progress (ascii ''  ... '' @ label @ ascii '': '' @ fmt_thousands ?n
                            @ ascii '' chars ('' @ e @ ascii '')''))
                 (stream_loop w label frags (chunks @ [t], ?n, ?n))) s
            = stream_loop w label frags (chunks @ [t], ?n, ?n) s2"
          by (simp add: prog_defs)
        from Cons.IH [of "chunks @ [t]" ?n ?n s2] s2 Some False True show ?thesis
          by simp
      next
        case nr: False
        from Cons.IH [of "chunks @ [t]" ?n r s] Some False nr show ?thesis
          by simp
      qed
    qed
  qed
qed

text \<open>
  Claim C7. When the stream ends normally, \<open>_stream_gemini\<close> returns the concatenation, in
  arrival order, of the texts of all fragments (a fragment without text contributes
  nothing). The result is a function of that concatenation alone, so it does not depend on
  where the text is cut into fragments.
\<close>

theorem stream_gemini_concat:
  "fst (stream_gemini w (frags, None) model contents label s)
     = Ok (concat (map (\<lambda>f. case f of None \<Rightarrow> [] | Some t \<Rightarrow> t) frags))"
proof -
  obtain s0 where s0: "stream_gemini w (frags, None) model contents label s
     = pbind (stream_loop w label frags ([], 0, 0)) (\<lambda>(chunks, char_count, last_report).
        pseq (ret ())
       (pbind (elapsed_now w) (\<lambda>e.
        pseq (progress ([32, 32, 10003, 32] @ label @ ascii '': '' @ fmt_thousands char_count
                     @ ascii '' chars total ('' @ e @ ascii '')''))
          (ret (concat chunks))))) s0"
    by (simp add: stream_gemini_def prog_defs)
  obtain chunks1 n1 r1 s1 where
    l: "stream_loop w label frags ([], 0, 0) s0 = (Ok (chunks1, n1, r1), s1)"
    and c: "concat chunks1 = concat (map (\<lambda>f. case f of None \<Rightarrow> [] | Some t \<Rightarrow> t) frags)"
    using stream_loop_concat [of w label frags "[]" 0 0 s0] by auto
  show ?thesis unfolding s0 using l c by (simp add: prog_defs)
qed

section \<open>File operations\<close>

lemma pbind_OkE:
  assumes "pbind m f s = (Ok y, s')"
  obtains x s1 where "m s = (Ok x, s1)" and "f x s1 = (Ok y, s')"
  using assms by (auto simp: pbind_def split: prod.splits res.splits)

lemma pseq_OkE:
  assumes "pseq m k s = (Ok y, s')"
  obtains x s1 where "m s = (Ok x, s1)" and "k s1 = (Ok y, s')"
  using assms unfolding pseq_def by (rule pbind_OkE)

lemma os_mkdir_InrD:
  assumes "os_mkdir fs p = Inr fs1"
  shows "fs1 = fs(p \<mapsto> Dir)" and "p \<noteq> []" and "fs p = None"
  using assms
  by (auto simp: os_mkdir_def path_exists_def lookup_def split: if_splits option.splits node.splits)

lemma mkdir_plain_frame:
  assumes "mkdir_plain exist_ok p fs = Inr fs1"
  shows "fs1 q = fs q \<or> (fs q = None \<and> fs1 q = Some Dir \<and> q = p \<and> q \<noteq> [])"
  using assms os_mkdir_InrD [of fs p]
  by (auto simp: mkdir_plain_def split: sum.splits if_splits)

lemma mkdir_parents_frame:
  "mkdir_parents exist_ok p fs = Inr fs1 \<Longrightarrow>
   fs1 q = fs q \<or> (fs q = None \<and> fs1 q = Some Dir \<and> q \<noteq> [] \<and> take (length q) p = q)"
proof (induction exist_ok p fs arbitrary: fs1 rule: mkdir_parents.induct)
  case (1 exist_ok p fs)
  from "1.prems" have u:
    "(case os_mkdir fs p of
        Inr fs1 \<Rightarrow> Inr fs1
      | Inl e \<Rightarrow>
          if e = FileNotFoundError then
            (if p = [] then Inl e
             else (case mkdir_parents True (butlast p) fs of
                     Inl e1 \<Rightarrow> Inl e1
                   | Inr fs1 \<Rightarrow> mkdir_plain exist_ok p fs1))
          else if exist_ok \<and> is_dir fs p then Inr fs
          else Inl e) = Inr fs1"
    by (subst (asm) mkdir_parents.simps)
  show ?case
  proof (cases "os_mkdir fs p")
    case (Inr fs2)
    with u have "fs1 = fs2" by simp
    with os_mkdir_InrD [OF Inr] show ?thesis by auto
  next
    case (Inl e)
    show ?thesis
    proof (cases "e = FileNotFoundError")
      case False
      with Inl u have "fs1 = fs"
        by (simp split: if_splits)
      then show ?thesis by simp
    next
      case True
      with Inl u have ne: "p \<noteq> []"
        by (auto split: if_splits)
      from True Inl u ne obtain fs2 where
        a: "mkdir_parents True (butlast p) fs = Inr fs2" and b: "mkdir_plain exist_ok p fs2 = Inr fs1"
        by (auto split: sum.splits)
      from "1.IH" [OF Inl True ne a]
      have c: "fs2 q = fs q \<or> (fs q = None \<and> fs2 q = Some Dir \<and> q \<noteq> [] \<and> take (length q) (butlast p) = q)" .
      have d: "take (length q) p = q" if eq: "take (length q) (butlast p) = q"
      proof -
        from arg_cong [OF eq, of length] have "length q \<le> length p - 1" by simp
        then have "take (length q) (butlast p) = take (length q) p"
          by (simp add: butlast_conv_take min_def)
        with eq show ?thesis by simp
      qed
      from mkdir_plain_frame [OF b, of q] c d show ?thesis by auto
    qed
  qed
qed


lemma ascii_neq_simps [simp]:
  "ascii ''synthesis.json'' \<noteq> ascii ''visual_analysis.json''"
  "ascii ''synthesis.json'' \<noteq> ascii ''artifacts''"
  "ascii ''synthesis.json'' \<noteq> ascii ''PRD.md''"
  "ascii ''synthesis.json'' \<noteq> ascii ''metadata.json''"
  "ascii ''synthesis.json'' \<noteq> ascii ''README.md''"
  by simp_all

lemma mkdir_OkD:
  assumes "mkdir parents exist_ok p s = (Ok x, s1)"
  shows "\<exists>fs1. s1 = s\<lparr>files := fs1\<rparr>
    \<and> (\<forall>q. fs1 q = files s q
           \<or> (files s q = None \<and> fs1 q = Some Dir \<and> q \<noteq> [] \<and> take (length q) p = q))"
proof (cases parents)
  case True
  with assms obtain fs1 where a: "mkdir_parents exist_ok p (files s) = Inr fs1"
    and b: "s1 = s\<lparr>files := fs1\<rparr>"
    by (auto simp: mkdir_def split: sum.splits)
  from mkdir_parents_frame [OF a] b show ?thesis by blast
next
  case False
  with assms obtain fs1 where a: "mkdir_plain exist_ok p (files s) = Inr fs1"
    and b: "s1 = s\<lparr>files := fs1\<rparr>"
    by (auto simp: mkdir_def split: sum.splits)
  have "fs1 q = files s q \<or> (files s q = None \<and> fs1 q = Some Dir \<and> q \<noteq> [] \<and> take (length q) p = q)" for q
    using mkdir_plain_frame [OF a, of q] by auto
  with b show ?thesis by blast
qed

lemma copy2_OkD:
  assumes "copy2 src dst s = (Ok x, s1)"
  obtains bs where "lookup (files s) src = Some (File bs)"
    and "s1 = s\<lparr>files := (files s)((if is_dir (files s) dst then dst @ [last src] else dst) \<mapsto> File bs)\<rparr>"
  using assms
  by (auto simp: copy2_def Let_def open_write_def
      split: option.splits node.splits if_splits sum.splits)

lemma copy2_Dir:
  "lookup (files s) src = Some Dir \<Longrightarrow> copy2 src dst s = (Raise IsADirectoryError, s)"
  by (simp add: copy2_def)

lemma write_text_OkD:
  assumes "write_text w enc p data s = (Ok x, s1)"
  obtains bs where "encode (case enc of None \<Rightarrow> locale_encoding w | Some e \<Rightarrow> e) data = Some bs"
    and "s1 = s\<lparr>files := (files s)(p \<mapsto> File bs)\<rparr>"
  using assms
  by (auto simp: write_text_def open_write_def
      split: option.splits node.splits if_splits sum.splits)

lemma wf_fs_child:
  assumes "wf_fs fs" and "fs p = None" and "p \<noteq> []"
  shows "fs (p @ [c]) = None"
proof (rule ccontr)
  assume "fs (p @ [c]) \<noteq> None"
  with assms(1) have "lookup fs (butlast (p @ [c])) = Some Dir"
    unfolding wf_fs_def by blast
  with assms(2,3) show False by (simp add: lookup_def)
qed


lemma do_when_OkE:
  assumes "do_when c m s = (Ok x, s1)"
  obtains "\<not> c" and "s1 = s" | "c" and "m s = (Ok x, s1)"
  using assms by (auto simp: do_when_def ret_def split: if_splits)

lemma promote_OkD:
  assumes ok: "promote w name plan_path cache_dir output_root s = (Ok dest, s')"
  shows "\<exists>s1 s2 s3 s4 s5 s6 copied.
    \<not> path_exists (files s) (output_root @ [name])
    \<and> mkdir True False (output_root @ [name]) s = (Ok (), s1)
    \<and> mkdir False False (output_root @ [name, ascii ''artifacts'']) s1 = (Ok (), s2)
    \<and> copy2 plan_path (output_root @ [name, ascii ''PRD.md'']) s2 = (Ok (), s3)
    \<and> copy_artifacts cache_dir (output_root @ [name])
           [ascii ''visual_analysis.json'', ascii ''synthesis.json''] []
           (s3\<lparr>stdout := stdout s3 @ [ascii ''  Copied plan '' @ [8594, 32]
               @ path_str (output_root @ [name, ascii ''PRD.md''])]\<rparr>) = (Ok copied, s4)
    \<and> write_text w None (output_root @ [name, ascii ''artifacts'', ascii ''metadata.json''])
           (json_dumps True (metadata w name plan_path cache_dir copied) @ [10]) s4 = (Ok (), s5)
    \<and> write_text w None (output_root @ [name, ascii ''README.md''])
           (py_join [10] (readme_lines w name copied)) s5 = (Ok (), s6)
    \<and> s' = s6\<lparr>stdout := stdout s6 @ [ascii ''  Generated '' @ [8594] @ ascii '' README.md'']\<rparr>
    \<and> dest = output_root @ [name]"
  using ok unfolding promote_def Let_def
  apply (elim pbind_OkE pseq_OkE do_when_OkE)
  apply (simp_all only: exists_p_def print_out_def print_err_def sys_exit_def ret_def prod.inject res.distinct res.inject)
   apply (clarsimp simp del: copy_artifacts.simps)
  apply (clarsimp simp del: copy_artifacts.simps)
  done


lemma copy_artifacts_one:
  assumes "copy_artifacts cache_dir dest [n] acc s = (Ok copied, s1)"
    and "\<And>bs. lookup (files s) (cache_dir @ [n]) \<noteq> Some (File bs)"
  shows "copied = acc \<and> s1 = s"
proof (cases "path_exists (files s) (cache_dir @ [n])")
  case False
  with assms(1) show ?thesis by (simp add: prog_defs)
next
  case True
  with assms(1) obtain x s2 where "copy2 (cache_dir @ [n]) (dest @ [ascii ''artifacts'', n]) s = (Ok x, s2)"
    by (auto simp: prog_defs split: prod.splits res.splits)
  then obtain bs where "lookup (files s) (cache_dir @ [n]) = Some (File bs)"
    by (rule copy2_OkD)
  with assms(2) [of bs] show ?thesis by simp
qed

lemma copy_artifacts_two:
  assumes run: "copy_artifacts cache_dir dest [v, y] [] s = (Ok copied, s4)"
    and nofile: "\<And>bs. files s (cache_dir @ [y]) \<noteq> Some (File bs)"
    and vy: "v \<noteq> y"
  shows "(copied = [] \<and> files s4 = files s)
       \<or> (copied = [v] \<and> (\<exists>t bs. files s4 = (files s)(t \<mapsto> File bs) \<and> t \<noteq> [] \<and> last t = v))"
proof (cases "path_exists (files s) (cache_dir @ [v])")
  case False
  with run have "copy_artifacts cache_dir dest [y] [] s = (Ok copied, s4)"
    by (simp add: prog_defs)
  from copy_artifacts_one [OF this] nofile show ?thesis by (simp add: lookup_def)
next
  case True
  with run obtain x s2 where c: "copy2 (cache_dir @ [v]) (dest @ [ascii ''artifacts'', v]) s = (Ok x, s2)"
    and r: "copy_artifacts cache_dir dest [y] [v]
              (s2\<lparr>stdout := stdout s2 @ [ascii ''  Copied artifact '' @ [8594] @ ascii '' artifacts/'' @ v]\<rparr>)
            = (Ok copied, s4)"
    by (auto simp: prog_defs split: prod.splits res.splits)
  from c obtain bs where
    s2: "s2 = s\<lparr>files := (files s)((if is_dir (files s) (dest @ [ascii ''artifacts'', v])
                 then (dest @ [ascii ''artifacts'', v]) @ [last (cache_dir @ [v])]
                 else dest @ [ascii ''artifacts'', v]) \<mapsto> File bs)\<rparr>"
    by (rule copy2_OkD)
  let ?t = "if is_dir (files s) (dest @ [ascii ''artifacts'', v])
            then (dest @ [ascii ''artifacts'', v]) @ [last (cache_dir @ [v])]
            else dest @ [ascii ''artifacts'', v]"
  have t: "?t \<noteq> [] \<and> last ?t = v" by simp
  have "?t \<noteq> cache_dir @ [y]"
  proof
    assume "?t = cache_dir @ [y]"
    then have "last ?t = last (cache_dir @ [y])" by (rule arg_cong)
    with t vy show False by simp
  qed
  with nofile s2 have "\<And>bs. lookup (files (s2\<lparr>stdout := stdout s2 @ [ascii ''  Copied artifact '' @ [8594] @ ascii '' artifacts/'' @ v]\<rparr>)) (cache_dir @ [y]) \<noteq> Some (File bs)"
    by (simp add: lookup_def)
  from copy_artifacts_one [OF r this] s2 t show ?thesis by auto
qed


lemma readme_lines_without_synthesis:
  assumes "ascii ''synthesis.json'' \<notin> set copied"
  shows "synthesis_bullet \<notin> set (readme_lines w name copied)"
    and "prd_bullet \<in> set (readme_lines w name copied)"
    and "metadata_bullet \<in> set (readme_lines w name copied)"
  using assms
  by (auto simp: readme_lines_def synthesis_bullet_def prd_bullet_def metadata_bullet_def
      visual_bullet_def ascii_def)

text \<open>
  Claim C6. On a well-formed file system, when the cache has no \<open>synthesis.json\<close> and the
  promotion completes, \<open>synthesis.json\<close> is not among the copied artifacts; the README
  written is the join of lines that do not include the synthesis bullet and do include the
  PRD and metadata bullets; and \<open>metadata.json\<close> holds the dump of the metadata whose
  \<open>artifacts\<close> list is the copied names. The witness is a promotion without
  \<open>synthesis.json\<close> that completes.
\<close>

theorem promote_without_synthesis:
  assumes wf: "wf_fs (files s)"
    and lacks: "\<not> path_exists (files s) (cache_dir @ [ascii ''synthesis.json''])"
    and ok: "promote w name plan_path cache_dir output_root s = (Ok dest, s')"
  shows "\<exists>copied rb mb.
      dest = output_root @ [name]
    \<and> ascii ''synthesis.json'' \<notin> set copied
    \<and> files s' (dest @ [ascii ''README.md'']) = Some (File rb)
    \<and> encode (locale_encoding w) (py_join [10] (readme_lines w name copied)) = Some rb
    \<and> synthesis_bullet \<notin> set (readme_lines w name copied)
    \<and> prd_bullet \<in> set (readme_lines w name copied)
    \<and> metadata_bullet \<in> set (readme_lines w name copied)
    \<and> files s' (dest @ [ascii ''artifacts'', ascii ''metadata.json'']) = Some (File mb)
    \<and> encode (locale_encoding w)
          (json_dumps True (metadata w name plan_path cache_dir copied) @ [10]) = Some mb
    \<and> metadata w name plan_path cache_dir copied
        = JObj [(ascii ''name'', JStr name),
                (ascii ''promoted_at'', JStr (now_isoformat w)),
                (ascii ''source_plan'', JStr (path_str plan_path)),
                (ascii ''source_cache'', JStr (path_str cache_dir)),
                (ascii ''artifacts'', JArr (map JStr copied))]"
proof -
  let ?dest = "output_root @ [name]"
  let ?syn = "cache_dir @ [ascii ''synthesis.json'']"
  let ?prd = "output_root @ [name, ascii ''PRD.md'']"
  let ?meta = "output_root @ [name, ascii ''artifacts'', ascii ''metadata.json'']"
  let ?readme = "output_root @ [name, ascii ''README.md'']"
  from promote_OkD [OF ok] obtain s1 s2 s3 s4 s5 s6 copied where
    fresh: "\<not> path_exists (files s) ?dest"
    and m1: "mkdir True False ?dest s = (Ok (), s1)"
    and m2: "mkdir False False (output_root @ [name, ascii ''artifacts'']) s1 = (Ok (), s2)"
    and c1: "copy2 plan_path ?prd s2 = (Ok (), s3)"
    and ca: "copy_artifacts cache_dir ?dest
           [ascii ''visual_analysis.json'', ascii ''synthesis.json''] []
           (s3\<lparr>stdout := stdout s3 @ [ascii ''  Copied plan '' @ [8594, 32] @ path_str ?prd]\<rparr>)
           = (Ok copied, s4)"
    and w1: "write_text w None ?meta
           (json_dumps True (metadata w name plan_path cache_dir copied) @ [10]) s4 = (Ok (), s5)"
    and w2: "write_text w None ?readme (py_join [10] (readme_lines w name copied)) s5 = (Ok (), s6)"
    and fin: "s' = s6\<lparr>stdout := stdout s6 @ [ascii ''  Generated '' @ [8594] @ ascii '' README.md'']\<rparr>"
    and dest: "dest = ?dest"
    by blast
  from lacks have syn0: "files s ?syn = None"
    by (simp add: path_exists_def lookup_def)
  from fresh have dest0: "files s ?dest = None"
    by (simp add: path_exists_def lookup_def)
  from wf_fs_child [OF wf dest0] have prd0: "files s ?prd = None" by simp
  \<comment> \<open>the two directory creations add directories only\<close>
  from mkdir_OkD [OF m1] obtain fs1 where s1: "s1 = s\<lparr>files := fs1\<rparr>"
    and f1: "\<And>q. fs1 q = files s q \<or> (files s q = None \<and> fs1 q = Some Dir \<and> q \<noteq> [] \<and> take (length q) ?dest = q)"
    by blast
  from mkdir_OkD [OF m2] s1 obtain fs2 where s2: "s2 = s\<lparr>files := fs2\<rparr>"
    and f2: "\<And>q. fs2 q = fs1 q \<or> (fs1 q = None \<and> fs2 q = Some Dir \<and> q \<noteq> []
                \<and> take (length q) (output_root @ [name, ascii ''artifacts'']) = q)"
    by auto
  have prd1: "fs1 ?prd = None" using f1 [of ?prd] prd0 by auto
  have prd2: "fs2 ?prd = None" using f2 [of ?prd] prd1 by auto
  have syn2: "fs2 ?syn = None \<or> fs2 ?syn = Some Dir"
    using f1 [of ?syn] f2 [of ?syn] syn0 by auto
  \<comment> \<open>the plan is copied to PRD.md itself\<close>
  from c1 s2 prd2 obtain pb where s3: "s3 = s\<lparr>files := fs2(?prd \<mapsto> File pb)\<rparr>"
    by (auto elim!: copy2_OkD simp: is_dir_def lookup_def)
  have "?prd \<noteq> ?syn"
  proof
    assume "?prd = ?syn"
    then have "last ?prd = last ?syn" by (rule arg_cong)
    then show False by simp
  qed
  with syn2 s3 have syn3: "\<And>bs. files (s3\<lparr>stdout := stdout s3 @ [ascii ''  Copied plan '' @ [8594, 32] @ path_str ?prd]\<rparr>) ?syn \<noteq> Some (File bs)"
    by auto
  from copy_artifacts_two [OF ca syn3]
  have cp: "(copied = [] \<and> files s4 = files s3)
       \<or> (copied = [ascii ''visual_analysis.json'']
           \<and> (\<exists>t bs. files s4 = (files s3)(t \<mapsto> File bs) \<and> t \<noteq> [] \<and> last t = ascii ''visual_analysis.json''))"
    by simp
  then have nosyn: "ascii ''synthesis.json'' \<notin> set copied" by auto
  from w1 obtain mb where
    mb: "encode (locale_encoding w) (json_dumps True (metadata w name plan_path cache_dir copied) @ [10]) = Some mb"
    and s5: "s5 = s4\<lparr>files := (files s4)(?meta \<mapsto> File mb)\<rparr>"
    by (auto elim!: write_text_OkD)
  from w2 obtain rb where
    rb: "encode (locale_encoding w) (py_join [10] (readme_lines w name copied)) = Some rb"
    and s6: "s6 = s5\<lparr>files := (files s5)(?readme \<mapsto> File rb)\<rparr>"
    by (auto elim!: write_text_OkD)
  have "?meta \<noteq> ?readme"
  proof
    assume "?meta = ?readme"
    then have "last ?meta = last ?readme" by (rule arg_cong)
    then show False by simp
  qed
  with s5 s6 fin have a: "files s' ?readme = Some (File rb)" and b: "files s' ?meta = Some (File mb)"
    by simp_all
  from a b mb rb nosyn dest readme_lines_without_synthesis [OF nosyn, of w name]
  show ?thesis by (auto simp: metadata_def)
qed

lemma replicate_numeral: "replicate (numeral k) x = x # replicate (pred_numeral k) x"
  by (simp add: numeral_eq_Suc)

lemma wf_fs_sample_files: "wf_fs sample_files"
  unfolding wf_fs_def sample_files_def
  by (auto simp: lookup_def split: if_splits)

lemma promote_sample_completes:
  "fst (promote sample_world (ascii ''plan-a'') [ascii ''work'', ascii ''engineering_plan.md'']
     [ascii ''work'', ascii ''.cache''] [ascii ''work''] sample_state)
   = Ok [ascii ''work'', ascii ''plan-a'']"
  by (simp add: promote_def prog_defs Let_def sample_state_def sample_files_def sample_world_def
      mkdir_def mkdir_parents.simps mkdir_plain_def os_mkdir_def path_exists_def lookup_def is_dir_def
      copy2_def open_write_def write_text_def encode_def json_dumps_def metadata_def readme_lines_def
      encode_basestring_def escape_char_def newline_indent_def encode_char_def utf8_encode_char_def
      ascii_def path_str_def prd_bullet_def visual_bullet_def metadata_bullet_def synthesis_bullet_def
      replicate_numeral)

theorem promote_without_synthesis_witness:
  "\<exists>copied rb mb.
      ascii ''synthesis.json'' \<notin> set copied
    \<and> files (snd (promote sample_world (ascii ''plan-a'')
                 [ascii ''work'', ascii ''engineering_plan.md'']
                 [ascii ''work'', ascii ''.cache''] [ascii ''work''] sample_state))
          [ascii ''work'', ascii ''plan-a'', ascii ''README.md''] = Some (File rb)
    \<and> encode UTF8 (py_join [10] (readme_lines sample_world (ascii ''plan-a'') copied)) = Some rb
    \<and> synthesis_bullet \<notin> set (readme_lines sample_world (ascii ''plan-a'') copied)
    \<and> prd_bullet \<in> set (readme_lines sample_world (ascii ''plan-a'') copied)
    \<and> metadata_bullet \<in> set (readme_lines sample_world (ascii ''plan-a'') copied)
    \<and> files (snd (promote sample_world (ascii ''plan-a'')
                 [ascii ''work'', ascii ''engineering_plan.md'']
                 [ascii ''work'', ascii ''.cache''] [ascii ''work''] sample_state))
          [ascii ''work'', ascii ''plan-a'', ascii ''artifacts'', ascii ''metadata.json'']
        = Some (File mb)"
proof -
  let ?run = "promote sample_world (ascii ''plan-a'') [ascii ''work'', ascii ''engineering_plan.md'']
                [ascii ''work'', ascii ''.cache''] [ascii ''work''] sample_state"
  have wf: "wf_fs (files sample_state)"
    by (simp add: sample_state_def wf_fs_sample_files)
  have lacks: "\<not> path_exists (files sample_state)
                  ([ascii ''work'', ascii ''.cache''] @ [ascii ''synthesis.json''])"
    by (simp add: sample_state_def sample_files_def path_exists_def lookup_def)
  have ok: "?run = (Ok [ascii ''work'', ascii ''plan-a''], snd ?run)"
    using promote_sample_completes by (cases ?run) simp
  from promote_without_synthesis [OF wf lacks ok] show ?thesis
    by (auto simp: sample_world_def)
qed

lemma promote_dest_exists:
  assumes "path_exists (files s) (output_root @ [name])"
  shows "promote w name plan_path cache_dir output_root s
     = (Exit 1, s\<lparr>stderr := stderr s
          @ [ascii ''Error: directory already exists: '' @ path_str (output_root @ [name]),
             ascii ''  Pick a different name or remove it first.'']\<rparr>)"
  using assms by (simp add: promote_def prog_defs Let_def)

text \<open>
  Claim C4. When the destination \<open>output_root / name\<close> exists, \<open>promote\<close> prints its two
  error lines and exits with status 1 in the state it started in; the utility as a whole
  exits with status 1 (at the latest there) with the file system unchanged and no request
  sent.
\<close>

theorem promote_existing_destination:
  assumes "path_exists (files s) (parg_output_root a @ [parg_name a])"
  shows "promote w (parg_name a) plan_path cache_dir (parg_output_root a) s
           = (Exit 1, s\<lparr>stderr := stderr s
               @ [ascii ''Error: directory already exists: ''
                    @ path_str (parg_output_root a @ [parg_name a]),
                  ascii ''  Pick a different name or remove it first.'']\<rparr>)
       \<and> fst (promote_main w a s) = Exit 1
       \<and> files (snd (promote_main w a s)) = files s
       \<and> calls (snd (promote_main w a s)) = calls s"
proof -
  note p = promote_dest_exists [OF assms]
  show ?thesis
  proof (cases "path_exists (files s) (parg_plan a)")
    case False
    then show ?thesis using p by (simp add: promote_main_def prog_defs)
  next
    case True
    show ?thesis
    proof (cases "path_exists (files s) (parg_cache a)")
      case c: True
      have q: "path_exists (files (s\<lparr>stdout := stdout s @ [ascii ''Promoting: '' @ parg_name a]\<rparr>))
            (parg_output_root a @ [parg_name a])"
        using assms by simp
      show ?thesis using p True c promote_dest_exists [OF q, of w "parg_plan a" "parg_cache a"]
        by (simp add: promote_main_def prog_defs)
    next
      case c: False
      let ?s1 = "s\<lparr>stderr := stderr s @ [ascii ''Warning: cache directory not found: ''
                               @ path_str (parg_cache a), ascii ''  Promoting plan without artifacts.''],
                   stdout := stdout s @ [ascii ''Promoting: '' @ parg_name a]\<rparr>"
      have q: "path_exists (files ?s1) (parg_output_root a @ [parg_name a])"
        using assms by simp
      show ?thesis using p True c promote_dest_exists [OF q, of w "parg_plan a" "[ascii ''nonexistent'']"]
        by (simp add: promote_main_def prog_defs)
    qed
  qed
qed

theorem promote_existing_destination_witness:
  "fst (promote_main sample_world
          \<lparr>parg_name = ascii ''.cache'',
           parg_plan = [ascii ''work'', ascii ''engineering_plan.md''],
           parg_cache = [ascii ''work'', ascii ''.cache''],
           parg_output_root = [ascii ''work'']\<rparr> sample_state) = Exit 1
   \<and> files (snd (promote_main sample_world
          \<lparr>parg_name = ascii ''.cache'',
           parg_plan = [ascii ''work'', ascii ''engineering_plan.md''],
           parg_cache = [ascii ''work'', ascii ''.cache''],
           parg_output_root = [ascii ''work'']\<rparr> sample_state)) = sample_files"
proof -
  let ?a = "\<lparr>parg_name = ascii ''.cache'',
           parg_plan = [ascii ''work'', ascii ''engineering_plan.md''],
           parg_cache = [ascii ''work'', ascii ''.cache''],
           parg_output_root = [ascii ''work'']\<rparr>"
  have h: "path_exists (files sample_state) (parg_output_root ?a @ [parg_name ?a])"
    by (simp add: sample_state_def sample_files_def path_exists_def lookup_def)
  from promote_existing_destination [OF h, of sample_world] show ?thesis
    by (simp add: sample_state_def)
qed


section \<open>The driver: prerequisites of a phase\<close>

lemma mkdir_parents_lookup_existing:
  assumes "mkdir_parents exist_ok p fs = Inr fs1" and "lookup fs q = Some n"
  shows "lookup fs1 q = Some n"
  using mkdir_parents_frame [OF assms(1), of q] assms(2)
  by (auto simp: lookup_def split: if_splits)

lemma mkdir_parents_lookup_child:
  assumes "mkdir_parents exist_ok p fs = Inr fs1"
  shows "lookup fs1 (p @ [x]) = lookup fs (p @ [x])"
  using mkdir_parents_frame [OF assms(1), of "p @ [x]"]
  by (auto simp: lookup_def)

lemma header_neq [simp]:
  "ascii ''visual_analysis.json'' \<noteq> ascii ''synthesis.json''"
  by simp

lemma phase3_without_synthesis_exits:
  assumes phase: "arg_phase a = Some 3"
    and key: "truthy (py_or (arg_openai_key a) (env_openai_api_key w))"
    and dir: "mkdir_parents True (cache_dir_of a) (files s) = Inr fs1"
    and video: "path_exists (files s) (arg_video a)"
    and srt: "lookup (files s) (arg_subtitles a) = Some (File bs)" "decode UTF8 bs = Some t"
    and visual: "lookup (files s) (cache_dir_of a @ [ascii ''visual_analysis.json'']) = None
       \<or> (\<exists>vb vt doc. lookup (files s) (cache_dir_of a @ [ascii ''visual_analysis.json'']) = Some (File vb)
            \<and> decode (locale_encoding w) vb = Some vt \<and> json_loads w (universal_newlines vt) = Some doc)"
    and synth: "\<not> path_exists (files s) (cache_dir_of a @ [ascii ''synthesis.json''])"
  shows "fst (main w a s) = Exit 1
    \<and> stderr (snd (main w a s)) = stderr s @ [phase3_prereq_error (cache_dir_of a)]
    \<and> calls (snd (main w a s)) = calls s"
proof -
  from video obtain vn where "lookup (files s) (arg_video a) = Some vn"
    by (auto simp: path_exists_def)
  from mkdir_parents_lookup_existing [OF dir this] have v1: "path_exists fs1 (arg_video a)"
    by (simp add: path_exists_def)
  from mkdir_parents_lookup_existing [OF dir srt(1)]
  have r1: "lookup fs1 (arg_subtitles a) = Some (File bs)" .
  then have r1e: "path_exists fs1 (arg_subtitles a)" by (simp add: path_exists_def)
  from synth mkdir_parents_lookup_child [OF dir, of "ascii ''synthesis.json''"]
  have s1: "\<not> path_exists fs1 (cache_dir_of a @ [ascii ''synthesis.json''])"
    by (simp add: path_exists_def)
  from visual mkdir_parents_lookup_child [OF dir, of "ascii ''visual_analysis.json''"]
  have c1: "lookup fs1 (cache_dir_of a @ [ascii ''visual_analysis.json'']) = None
       \<or> (\<exists>vb vt doc. lookup fs1 (cache_dir_of a @ [ascii ''visual_analysis.json'']) = Some (File vb)
            \<and> decode (locale_encoding w) vb = Some vt \<and> json_loads w (universal_newlines vt) = Some doc)"
    by simp
  from c1 show ?thesis
  proof
    assume "lookup fs1 (cache_dir_of a @ [ascii ''visual_analysis.json'']) = None"
    then have "\<not> path_exists fs1 (cache_dir_of a @ [ascii ''visual_analysis.json''])"
      by (simp add: path_exists_def)
    with phase key dir v1 r1 r1e srt(2) s1 show ?thesis
      unfolding cache_dir_of_def
      by (simp add: main_def Let_def prog_defs mkdir_def read_text_def)
  next
    assume "\<exists>vb vt doc. lookup fs1 (cache_dir_of a @ [ascii ''visual_analysis.json'']) = Some (File vb)
            \<and> decode (locale_encoding w) vb = Some vt \<and> json_loads w (universal_newlines vt) = Some doc"
    then obtain vb vt doc where
      "lookup fs1 (cache_dir_of a @ [ascii ''visual_analysis.json'']) = Some (File vb)"
      "decode (locale_encoding w) vb = Some vt" "json_loads w (universal_newlines vt) = Some doc"
      by blast
    moreover from this have "path_exists fs1 (cache_dir_of a @ [ascii ''visual_analysis.json''])"
      by (simp add: path_exists_def)
    ultimately show ?thesis using phase key dir v1 r1 r1e srt(2) s1
      unfolding cache_dir_of_def
      by (simp add: main_def Let_def prog_defs mkdir_def read_text_def loads_def)
  qed
qed


lemma phase3_nonzero:
  assumes phase: "arg_phase a = Some 3"
    and synth: "\<not> path_exists (files s) (cache_dir_of a @ [ascii ''synthesis.json''])"
  shows "fst (main w a s) = Exit 1 \<or> (\<exists>e. fst (main w a s) = Raise e)"
proof (cases "truthy (py_or (arg_openai_key a) (env_openai_api_key w))")
  case False
  with phase show ?thesis by (simp add: main_def Let_def prog_defs)
next
  case key: True
  show ?thesis
  proof (cases "mkdir_parents True (cache_dir_of a) (files s)")
    case (Inl e)
    with phase key show ?thesis
      unfolding cache_dir_of_def by (simp add: main_def Let_def prog_defs mkdir_def)
  next
    case (Inr fs1)
    from synth mkdir_parents_lookup_child [OF Inr, of "ascii ''synthesis.json''"]
    have s1: "\<not> path_exists fs1 (cache_dir_of a @ [ascii ''synthesis.json''])"
      by (simp add: path_exists_def)
    with phase key Inr show ?thesis
      unfolding cache_dir_of_def
      by (auto simp: main_def Let_def prog_defs mkdir_def read_text_def loads_def
          split: option.splits node.splits)
  qed
qed

section \<open>What a run prints to standard error and which requests it sends\<close>

lemma emitsI:
  assumes "\<And>s. \<exists>l. stderr (snd (m s)) = stderr s @ l \<and> set l \<subseteq> E"
    and "\<And>s. \<exists>l. calls (snd (m s)) = calls s @ l \<and> set l \<subseteq> C"
  shows "emits E C m"
  using assms unfolding emits_def by blast

lemma emits_keep:
  assumes "\<And>s. stderr (snd (m s)) = stderr s" and "\<And>s. calls (snd (m s)) = calls s"
  shows "emits E C m"
  using assms unfolding emits_def by simp

lemma emits_ret: "emits E C (ret x)"
  by (rule emits_keep) (simp_all add: ret_def)

lemma emits_raise: "emits E C (raise e)"
  by (rule emits_keep) (simp_all add: raise_def)

lemma emits_sys_exit: "emits E C (sys_exit n)"
  by (rule emits_keep) (simp_all add: sys_exit_def)

lemma emits_hang: "emits E C (\<lambda>s. (Hang, s))"
  by (rule emits_keep) simp_all

lemma emits_print_out: "emits E C (print_out t)"
  by (rule emits_keep) (simp_all add: print_out_def)

lemma emits_progress: "emits E C (progress t)"
  unfolding progress_def by (rule emits_print_out)

lemma emits_print_err: "t \<in> E \<Longrightarrow> emits E C (print_err t)"
  by (simp add: emits_def print_err_def)

lemma emits_remote_call: "c \<in> C \<Longrightarrow> emits E C (remote_call c)"
  by (simp add: emits_def remote_call_def)

lemma emits_elapsed_now: "emits E C (elapsed_now w)"
  by (rule emits_keep) (simp_all add: elapsed_now_def)

lemma emits_exists_p: "emits E C (exists_p p)"
  by (rule emits_keep) (simp_all add: exists_p_def)

lemma emits_lift_exn: "emits E C (lift_exn r)"
  by (rule emits_keep) (simp_all add: lift_exn_def raise_def ret_def split: sum.splits)

lemma emits_loads: "emits E C (loads w t)"
  by (rule emits_keep) (simp_all add: loads_def raise_def ret_def split: option.splits)

lemma emits_mkdir: "emits E C (mkdir parents exist_ok p)"
  by (rule emits_keep) (simp_all add: mkdir_def split: sum.splits)

lemma emits_write_text: "emits E C (write_text w enc p t)"
  by (rule emits_keep) (simp_all add: write_text_def split: sum.splits option.splits)

lemma emits_read_text: "emits E C (read_text w enc p)"
  by (rule emits_keep) (simp_all add: read_text_def split: option.splits node.splits)

lemma emits_copy2: "emits E C (copy2 src dst)"
  by (rule emits_keep)
     (simp_all add: copy2_def Let_def split: option.splits node.splits sum.splits)

lemma emits_stat_size_mb: "emits E C (stat_size_mb w p)"
  by (rule emits_keep) (simp_all add: stat_size_mb_def)

lemma emits_pbind:
  assumes m: "emits E C m" and f: "\<And>x. emits E C (f x)"
  shows "emits E C (pbind m f)"
proof (rule emitsI)
  fix s
  from m obtain l1 where l1: "stderr (snd (m s)) = stderr s @ l1" "set l1 \<subseteq> E"
    unfolding emits_def by blast
  show "\<exists>l. stderr (snd (pbind m f s)) = stderr s @ l \<and> set l \<subseteq> E"
  proof (cases "m s")
    case (Pair r s1)
    show ?thesis
    proof (cases r)
      case (Ok x)
      from f [of x] obtain l2 where "stderr (snd (f x s1)) = stderr s1 @ l2" "set l2 \<subseteq> E"
        unfolding emits_def by blast
      with l1 Pair Ok show ?thesis by (auto simp: pbind_def)
    qed (use l1 Pair in \<open>auto simp: pbind_def\<close>)
  qed
next
  fix s
  from m obtain l1 where l1: "calls (snd (m s)) = calls s @ l1" "set l1 \<subseteq> C"
    unfolding emits_def by blast
  show "\<exists>l. calls (snd (pbind m f s)) = calls s @ l \<and> set l \<subseteq> C"
  proof (cases "m s")
    case (Pair r s1)
    show ?thesis
    proof (cases r)
      case (Ok x)
      from f [of x] obtain l2 where "calls (snd (f x s1)) = calls s1 @ l2" "set l2 \<subseteq> C"
        unfolding emits_def by blast
      with l1 Pair Ok show ?thesis by (auto simp: pbind_def)
    qed (use l1 Pair in \<open>auto simp: pbind_def\<close>)
  qed
qed

lemma emits_pseq: "emits E C m \<Longrightarrow> emits E C k \<Longrightarrow> emits E C (pseq m k)"
  unfolding pseq_def by (rule emits_pbind)

lemma emits_do_when: "(c \<Longrightarrow> emits E C m) \<Longrightarrow> emits E C (do_when c m)"
  by (simp add: do_when_def emits_ret)

lemma emits_if:
  "(c \<Longrightarrow> emits E C a) \<Longrightarrow> (\<not> c \<Longrightarrow> emits E C b) \<Longrightarrow> emits E C (if c then a else b)"
  by simp

lemma emits_case_option:
  "emits E C a \<Longrightarrow> (\<And>x. emits E C (b x)) \<Longrightarrow> emits E C (case_option a b v)"
  by (cases v) simp_all

lemma emits_case_prod: "(\<And>a b. emits E C (f a b)) \<Longrightarrow> emits E C (case_prod f v)"
  by (cases v) simp

lemma emits_case_list:
  "emits E C a \<Longrightarrow> (\<And>x xs. emits E C (b x xs)) \<Longrightarrow> emits E C (case_list a b v)"
  by (cases v) simp_all

lemmas emits_rules = emits_ret emits_raise emits_sys_exit emits_hang emits_print_out
  emits_progress emits_elapsed_now emits_exists_p emits_lift_exn emits_loads emits_mkdir
  emits_write_text emits_read_text emits_copy2 emits_stat_size_mb emits_pbind emits_pseq
  emits_do_when emits_if emits_case_option emits_case_prod emits_case_list

lemma emits_stream_loop: "emits E C (stream_loop w label frags acc)"
proof (induction frags arbitrary: acc)
  case Nil
  show ?case by (simp add: emits_ret)
next
  case (Cons f frags)
  obtain chunks n r where acc: "acc = (chunks, n, r)" by (cases acc) auto
  show ?case unfolding acc stream_loop.simps
    by (intro emits_rules Cons.IH)
qed

lemma emits_stream_gemini:
  assumes "GenerateContentStream model contents (ascii ''0.2'') 65536 \<in> C"
  shows "emits E C (stream_gemini w response model contents label)"
  unfolding stream_gemini_def
  by (intro emits_rules emits_stream_loop emits_remote_call assms)

lemma emits_count_line: "emits E C (count_line result key what)"
  unfolding count_line_def by (intro emits_rules)

lemma emits_run_phase2:
  assumes "\<And>p. GenerateContentStream (ascii ''gemini-2.5-flash'') (TextPrompt p) (ascii ''0.2'') 65536 \<in> C"
  shows "emits E C (run_phase2 w visual_analysis srt_content cache_dir)"
  unfolding run_phase2_def
  by (intro emits_rules emits_stream_gemini emits_count_line assms)

lemma emits_prd_loop: "emits E C (prd_loop w events acc)"
proof (induction events arbitrary: acc)
  case Nil
  show ?case by (simp add: emits_ret)
next
  case (Cons ev events)
  obtain chunks n r where acc: "acc = (chunks, n, r)" by (cases acc) auto
  show ?case unfolding acc prd_loop.simps
    by (intro emits_rules Cons.IH)
qed

lemma emits_run_phase3:
  assumes "\<And>ms. ChatCompletionsCreate (ascii ''gpt-5.2'') ms (ascii ''0.3'') 16384 \<in> C"
  shows "emits E C (run_phase3 w synthesis output_path)"
  unfolding run_phase3_def
  by (intro emits_rules emits_prd_loop emits_remote_call assms)

lemma emits_poll_loop: "emits E UNIV (poll_loop w replies video_file)"
proof (induction replies arbitrary: video_file)
  case Nil
  show ?case by (simp add: emits_ret emits_hang)
next
  case (Cons r replies)
  show ?case unfolding poll_loop.simps
    by (intro emits_rules emits_remote_call Cons.IH) simp_all
qed

lemma emits_files_delete: "emits E UNIV (files_delete w video_file)"
  unfolding files_delete_def by (intro emits_rules emits_remote_call) simp

lemma emits_run_phase1: "emits E UNIV (run_phase1 w video_path srt_content cache_dir)"
  unfolding run_phase1_def
  by (intro emits_rules emits_stream_gemini emits_poll_loop emits_files_delete emits_remote_call)
     simp_all


lemma emits_mono:
  assumes "emits E1 C1 m" and "E1 \<subseteq> E" and "C1 \<subseteq> C"
  shows "emits E C m"
  using assms unfolding emits_def by (meson order_trans)

lemma emits_run_phase1_all:
  assumes "\<And>c. c \<in> C"
  shows "emits E C (run_phase1 w video_path srt_content cache_dir)"
  by (rule emits_mono [OF emits_run_phase1 [of E]]) (use assms in auto)

lemma emits_main:
  assumes ph: "ph = (case arg_phase a of None \<Rightarrow> [1, 2, 3] | Some p \<Rightarrow> [p])"
    and gk: "gk = py_or (arg_gemini_key a) (env_gemini_api_key w)"
    and ok: "ok = py_or (arg_openai_key a) (env_openai_api_key w)"
  shows "emits
     {m. (m = gemini_key_error \<and> list_ex (\<lambda>p. p \<in> set [1, 2]) ph \<and> \<not> truthy gk)
       \<or> (m = openai_key_error \<and> 3 \<in> set ph \<and> \<not> truthy ok)
       \<or> m = ascii ''Error: Video file not found: '' @ path_str (arg_video a)
       \<or> m = ascii ''Error: Subtitle file not found: '' @ path_str (arg_subtitles a)
       \<or> m = phase2_prereq_error (butlast (arg_output a) @ [ascii ''.cache''])
       \<or> m = phase3_prereq_error (butlast (arg_output a) @ [ascii ''.cache''])}
     {c. 1 \<in> set ph
       \<or> (2 \<in> set ph \<and> (\<exists>p. c = GenerateContentStream (ascii ''gemini-2.5-flash'') (TextPrompt p)
                                   (ascii ''0.2'') 65536))
       \<or> (3 \<in> set ph \<and> (\<exists>ms. c = ChatCompletionsCreate (ascii ''gpt-5.2'') ms (ascii ''0.3'') 16384))}
     (main w a)"
  unfolding main_def Let_def ph [symmetric] gk [symmetric] ok [symmetric]
  by (intro emits_rules emits_print_err emits_run_phase1_all emits_run_phase2 emits_run_phase3)
     simp_all


section \<open>The driver: credentials, prerequisites and cached documents\<close>

lemma phase2_without_visual_exits:
  assumes phase: "arg_phase a = Some 2"
    and key: "truthy (py_or (arg_gemini_key a) (env_gemini_api_key w))"
    and dir: "mkdir_parents True (cache_dir_of a) (files s) = Inr fs1"
    and video: "path_exists (files s) (arg_video a)"
    and srt: "lookup (files s) (arg_subtitles a) = Some (File bs)" "decode UTF8 bs = Some t"
    and visual: "\<not> path_exists (files s) (cache_dir_of a @ [ascii ''visual_analysis.json''])"
  shows "fst (main w a s) = Exit 1
    \<and> stderr (snd (main w a s)) = stderr s @ [phase2_prereq_error (cache_dir_of a)]
    \<and> calls (snd (main w a s)) = calls s"
proof -
  from video obtain vn where "lookup (files s) (arg_video a) = Some vn"
    by (auto simp: path_exists_def)
  from mkdir_parents_lookup_existing [OF dir this] have v1: "path_exists fs1 (arg_video a)"
    by (simp add: path_exists_def)
  from mkdir_parents_lookup_existing [OF dir srt(1)]
  have r1: "lookup fs1 (arg_subtitles a) = Some (File bs)" .
  then have r1e: "path_exists fs1 (arg_subtitles a)" by (simp add: path_exists_def)
  from visual mkdir_parents_lookup_child [OF dir, of "ascii ''visual_analysis.json''"]
  have c1: "\<not> path_exists fs1 (cache_dir_of a @ [ascii ''visual_analysis.json''])"
    by (simp add: path_exists_def)
  with phase key dir v1 r1 r1e srt(2) show ?thesis
    unfolding cache_dir_of_def
    by (simp add: main_def Let_def prog_defs mkdir_def read_text_def)
qed

lemma phase2_nonzero:
  assumes phase: "arg_phase a = Some 2"
    and visual: "\<not> path_exists (files s) (cache_dir_of a @ [ascii ''visual_analysis.json''])"
  shows "fst (main w a s) = Exit 1 \<or> (\<exists>e. fst (main w a s) = Raise e)"
proof (cases "truthy (py_or (arg_gemini_key a) (env_gemini_api_key w))")
  case False
  with phase show ?thesis by (simp add: main_def Let_def prog_defs)
next
  case key: True
  show ?thesis
  proof (cases "mkdir_parents True (cache_dir_of a) (files s)")
    case (Inl e)
    with phase key show ?thesis
      unfolding cache_dir_of_def by (simp add: main_def Let_def prog_defs mkdir_def)
  next
    case (Inr fs1)
    from visual mkdir_parents_lookup_child [OF Inr, of "ascii ''visual_analysis.json''"]
    have s1: "\<not> path_exists fs1 (cache_dir_of a @ [ascii ''visual_analysis.json''])"
      by (simp add: path_exists_def)
    with phase key Inr show ?thesis
      unfolding cache_dir_of_def
      by (auto simp: main_def Let_def prog_defs mkdir_def read_text_def loads_def
          split: option.splits node.splits)
  qed
qed

lemma emits_calls_keep:
  assumes "emits E {} m"
  shows "calls (snd (m s)) = calls s"
  using assms unfolding emits_def by auto

lemma stream_gemini_calls:
  "calls (snd (stream_gemini w response model contents label s))
     = calls s @ [GenerateContentStream model contents (ascii ''0.2'') 65536]"
proof -
  let ?k = "pbind (stream_loop w label (fst response) ([], 0, 0)) (\<lambda>(chunks, char_count, last_report).
     pseq (case snd response of None \<Rightarrow> ret () | Some e \<Rightarrow> raise e)
    (pbind (elapsed_now w) (\<lambda>e.
     pseq (progress ([32, 32, 10003, 32] @ label @ ascii '': '' @ fmt_thousands char_count
                     @ ascii '' chars total ('' @ e @ ascii '')''))
          (ret (concat chunks)))))"
  have "emits {} {} ?k"
    by (intro emits_rules emits_stream_loop)
  from emits_calls_keep [OF this] show ?thesis
    by (simp add: stream_gemini_def pseq_def pbind_def progress_def print_out_def remote_call_def)
qed

lemma run_phase2_calls:
  "calls (snd (run_phase2 w visual_analysis srt_content cache_dir s))
     = calls s @ [GenerateContentStream (ascii ''gemini-2.5-flash'')
                    (TextPrompt (PHASE2_PROMPT (json_dumps False visual_analysis) srt_content))
                    (ascii ''0.2'') 65536]"
proof -
  let ?c = "GenerateContentStream (ascii ''gemini-2.5-flash'')
                    (TextPrompt (PHASE2_PROMPT (json_dumps False visual_analysis) srt_content))
                    (ascii ''0.2'') 65536"
  let ?k = "\<lambda>raw_text.
     pbind (lift_exn (strip_fences raw_text)) (\<lambda>raw_text.
     pbind (loads w raw_text) (\<lambda>result.
     pseq (write_text w None (cache_dir @ [ascii ''synthesis.json'']) (json_dumps False result))
    (pseq (print_out (ascii ''  Saved: '' @ path_str (cache_dir @ [ascii ''synthesis.json''])))
    (pseq (count_line result (ascii ''pain_points'') (ascii '' pain points identified''))
    (pseq (count_line result (ascii ''current_workflows'') (ascii '' workflows documented''))
    (pseq (count_line result (ascii ''user_personas'') (ascii '' user personas identified''))
    (pbind (elapsed_now w) (\<lambda>e.
     pseq (print_out (ascii ''  Phase 2 total: '' @ e))
          (ret result)))))))))"
  have k: "emits {} {} (?k x)" for x
    by (intro emits_rules emits_count_line)
  have "calls (snd (pbind m ?k s0)) = calls (snd (m s0))" for m s0
    using emits_calls_keep [OF k]
    by (auto simp: pbind_def split: prod.splits res.splits)
  then show ?thesis
    by (simp add: run_phase2_def pseq_def [of "print_out x" for x] stream_gemini_calls
        pbind_def [of "print_out x" for x] print_out_def)
qed

lemma credential_errors_distinct:
  "gemini_key_error \<noteq> openai_key_error"
  "gemini_key_error \<noteq> ascii ''Error: Video file not found: '' @ x"
  "gemini_key_error \<noteq> ascii ''Error: Subtitle file not found: '' @ x"
  "gemini_key_error \<noteq> phase2_prereq_error c"
  "gemini_key_error \<noteq> phase3_prereq_error c"
  "openai_key_error \<noteq> ascii ''Error: Video file not found: '' @ x"
  "openai_key_error \<noteq> ascii ''Error: Subtitle file not found: '' @ x"
  "openai_key_error \<noteq> phase2_prereq_error c"
  "openai_key_error \<noteq> phase3_prereq_error c"
  by (simp_all add: gemini_key_error_def openai_key_error_def phase2_prereq_error_def
      phase3_prereq_error_def ascii_def)

text \<open>
  Claim C3. Before anything else the driver checks the credentials: when the requested
  phases include 1 or 2 and no Gemini key is given, it exits with status 1 in the starting
  state plus the Gemini error line; otherwise, when they include 3 and no OpenAI key is
  given, it does so with the OpenAI error line. The Gemini error line is printed exactly
  when a phase 1 or 2 is requested without a Gemini key, and the OpenAI one exactly
  when that is not so and phase 3 is requested without an OpenAI key: a run of phase 3
  alone with an OpenAI key and no Gemini key prints neither.
\<close>

theorem main_validates_credentials:
  fixes w :: world and a :: args and s :: state
  defines "ph \<equiv> (case arg_phase a of None \<Rightarrow> [1, 2, 3] | Some p \<Rightarrow> [p])"
    and "gk \<equiv> py_or (arg_gemini_key a) (env_gemini_api_key w)"
    and "ok \<equiv> py_or (arg_openai_key a) (env_openai_api_key w)"
    and "new_err \<equiv> drop (length (stderr s)) (stderr (snd (main w a s)))"
  shows "((1 \<in> set ph \<or> 2 \<in> set ph) \<and> \<not> truthy gk \<longrightarrow>
            main w a s = (Exit 1, s\<lparr>stderr := stderr s @ [gemini_key_error]\<rparr>))
       \<and> (\<not> ((1 \<in> set ph \<or> 2 \<in> set ph) \<and> \<not> truthy gk) \<and> 3 \<in> set ph \<and> \<not> truthy ok \<longrightarrow>
            main w a s = (Exit 1, s\<lparr>stderr := stderr s @ [openai_key_error]\<rparr>))
       \<and> (gemini_key_error \<in> set new_err \<longleftrightarrow> (1 \<in> set ph \<or> 2 \<in> set ph) \<and> \<not> truthy gk)
       \<and> (openai_key_error \<in> set new_err \<longleftrightarrow>
            \<not> ((1 \<in> set ph \<or> 2 \<in> set ph) \<and> \<not> truthy gk) \<and> 3 \<in> set ph \<and> \<not> truthy ok)"
proof -
  let ?G = "(1 \<in> set ph \<or> 2 \<in> set ph) \<and> \<not> truthy gk"
  let ?O = "3 \<in> set ph \<and> \<not> truthy ok"
  have a: "main w a s = (Exit 1, s\<lparr>stderr := stderr s @ [gemini_key_error]\<rparr>)" if ?G
    using that unfolding ph_def gk_def by (auto simp: main_def Let_def prog_defs list_ex_iff)
  have b: "main w a s = (Exit 1, s\<lparr>stderr := stderr s @ [openai_key_error]\<rparr>)" if "\<not> ?G" ?O
    using that unfolding ph_def gk_def ok_def by (auto simp: main_def Let_def prog_defs list_ex_iff)
  from emits_main [OF ph_def [THEN meta_eq_to_obj_eq] gk_def [THEN meta_eq_to_obj_eq]
      ok_def [THEN meta_eq_to_obj_eq]]
  obtain l where l: "stderr (snd (main w a s)) = stderr s @ l"
    and sub: "set l \<subseteq> {m. (m = gemini_key_error \<and> list_ex (\<lambda>p. p \<in> set [1, 2]) ph \<and> \<not> truthy gk)
       \<or> (m = openai_key_error \<and> 3 \<in> set ph \<and> \<not> truthy ok)
       \<or> m = ascii ''Error: Video file not found: '' @ path_str (arg_video a)
       \<or> m = ascii ''Error: Subtitle file not found: '' @ path_str (arg_subtitles a)
       \<or> m = phase2_prereq_error (butlast (arg_output a) @ [ascii ''.cache''])
       \<or> m = phase3_prereq_error (butlast (arg_output a) @ [ascii ''.cache''])}"
    unfolding emits_def by blast
  from l have ne: "new_err = l" by (simp add: new_err_def)
  have c: "?G" if "gemini_key_error \<in> set new_err"
    using that sub credential_errors_distinct unfolding ne by (auto simp: list_ex_iff)
  have d: "\<not> ?G \<and> ?O" if "openai_key_error \<in> set new_err"
  proof (cases ?G)
    case True
    from a [OF True] that credential_errors_distinct(1) show ?thesis
      by (auto simp: new_err_def)
  next
    case False
    with that sub credential_errors_distinct [symmetric] credential_errors_distinct
    show ?thesis unfolding ne by (auto simp: list_ex_iff)
  qed
  have e: "gemini_key_error \<in> set new_err" if ?G
    using a [OF that] by (simp add: new_err_def)
  have f: "openai_key_error \<in> set new_err" if "\<not> ?G" ?O
    using b [OF that] by (simp add: new_err_def)
  from a b c d e f show ?thesis by blast
qed

lemma main_calls_phase2:
  assumes phase: "arg_phase a = Some 2"
    and key: "truthy (py_or (arg_gemini_key a) (env_gemini_api_key w))"
    and dir: "mkdir_parents True (cache_dir_of a) (files s) = Inr fs1"
    and video: "path_exists (files s) (arg_video a)"
    and srt: "lookup (files s) (arg_subtitles a) = Some (File bs)" "decode UTF8 bs = Some t"
    and visual: "lookup (files s) (cache_dir_of a @ [ascii ''visual_analysis.json'']) = Some (File vb)"
      "decode (locale_encoding w) vb = Some vt" "json_loads w (universal_newlines vt) = Some doc"
  shows "calls (snd (main w a s))
     = calls s @ [GenerateContentStream (ascii ''gemini-2.5-flash'')
                    (TextPrompt (PHASE2_PROMPT (json_dumps False doc) (universal_newlines t)))
                    (ascii ''0.2'') 65536]"
proof -
  from video obtain vn where "lookup (files s) (arg_video a) = Some vn"
    by (auto simp: path_exists_def)
  from mkdir_parents_lookup_existing [OF dir this] have v1: "path_exists fs1 (arg_video a)"
    by (simp add: path_exists_def)
  from mkdir_parents_lookup_existing [OF dir srt(1)]
  have r1: "lookup fs1 (arg_subtitles a) = Some (File bs)" .
  then have r1e: "path_exists fs1 (arg_subtitles a)" by (simp add: path_exists_def)
  from mkdir_parents_lookup_existing [OF dir visual(1)]
  have c1: "lookup fs1 (cache_dir_of a @ [ascii ''visual_analysis.json'']) = Some (File vb)" .
  then have c1e: "path_exists fs1 (cache_dir_of a @ [ascii ''visual_analysis.json''])"
    by (simp add: path_exists_def)
  have d: "calls s1 = calls s0 @ [GenerateContentStream (ascii ''gemini-2.5-flash'')
                    (TextPrompt (PHASE2_PROMPT (json_dumps False va) srt_content))
                    (ascii ''0.2'') 65536]"
    if "run_phase2 w va srt_content cache_dir s0 = (r, s1)" for va srt_content cache_dir s0 r s1
    using run_phase2_calls [of w va srt_content cache_dir s0] that by simp
  from phase key dir v1 r1 r1e srt(2) c1 c1e visual(2,3) show ?thesis
    unfolding cache_dir_of_def
    by (auto simp: main_def Let_def prog_defs mkdir_def read_text_def loads_def
        split: prod.splits res.splits dest!: d)
qed

lemma ascii_is_Nil [simp]: "ascii s = [] \<longleftrightarrow> s = []"
  by (simp add: ascii_def)

lemma mkdir_sample_cache:
  "mkdir_parents True [ascii ''work'', ascii ''.cache''] sample_files = Inr sample_files"
  by (simp add: mkdir_parents.simps os_mkdir_def path_exists_def lookup_def is_dir_def
      sample_files_def)

lemma cache_dir_of_sample [simp]:
  "cache_dir_of (sample_args p) = [ascii ''work'', ascii ''.cache'']"
  by (simp add: cache_dir_of_def sample_args_def)

theorem main_validates_credentials_witness:
  "main sample_world (sample_args (Some 2)) sample_state
     = (Exit 1, sample_state\<lparr>stderr := [gemini_key_error]\<rparr>)
   \<and> gemini_key_error \<notin> set (stderr (snd (main sample_world (sample_args (Some 3)) sample_state)))
   \<and> openai_key_error \<notin> set (stderr (snd (main sample_world (sample_args (Some 3)) sample_state)))"
  using main_validates_credentials [of "sample_args (Some 2)" sample_world sample_state]
    main_validates_credentials [of "sample_args (Some 3)" sample_world sample_state]
  by (simp add: sample_args_def sample_world_def sample_state_def py_or_def truthy_def)

text \<open>
  Claim C2, as stated, fails: a run of phase 3 alone with no cached synthesis and no OpenAI
  key exits with status 1 on the credential check, and the only line on standard error is
  the OpenAI key error, which names no phase 2 (the digit 2 does not occur in it).
\<close>

theorem missing_prerequisite_counterexample:
  "arg_phase (sample_args (Some 3)) = Some 3
   \<and> \<not> path_exists (files sample_state)
         (cache_dir_of (sample_args (Some 3)) @ [ascii ''synthesis.json''])
   \<and> main (sample_world\<lparr>env_openai_api_key := None\<rparr>) (sample_args (Some 3)) sample_state
       = (Exit 1, sample_state\<lparr>stderr := [openai_key_error]\<rparr>)
   \<and> openai_key_error \<noteq> phase3_prereq_error (cache_dir_of (sample_args (Some 3)))
   \<and> 50 \<notin> set openai_key_error"
proof -
  have "main (sample_world\<lparr>env_openai_api_key := None\<rparr>) (sample_args (Some 3)) sample_state
       = (Exit 1, sample_state\<lparr>stderr := [openai_key_error]\<rparr>)"
    by (simp add: main_def Let_def prog_defs sample_args_def sample_world_def sample_state_def
        py_or_def truthy_def)
  moreover have "\<not> path_exists (files sample_state)
         (cache_dir_of (sample_args (Some 3)) @ [ascii ''synthesis.json''])"
    by (simp add: sample_state_def sample_files_def path_exists_def lookup_def)
  moreover have "50 \<notin> set openai_key_error"
    by (simp add: openai_key_error_def ascii_def)
  ultimately show ?thesis
    using credential_errors_distinct(9) by (simp add: sample_args_def)
qed

text \<open>
  Claim C2, amended. A run of phase 3 alone that finds no cached \<open>synthesis.json\<close> never
  ends normally: it exits with status 1 or with an uncaught exception. When moreover
  the OpenAI key is given, the cache directory exists or can be created, the video exists,
  the subtitles are a file that decodes as UTF-8, and the cached visual analysis is absent
  or loads, the run exits with status 1, sends no request, and prints to standard error
  exactly the line that asks to run phase 2 first. The same holds for a run of phase
  2 alone that finds no cached \<open>visual_analysis.json\<close>, with the Gemini key and the line
  that asks to run phase 1 first.
\<close>

theorem missing_prerequisite_exits:
  "(arg_phase a = Some 3
      \<and> \<not> path_exists (files s) (cache_dir_of a @ [ascii ''synthesis.json'']) \<longrightarrow>
        (fst (main w a s) = Exit 1 \<or> (\<exists>e. fst (main w a s) = Raise e))
      \<and> (truthy (py_or (arg_openai_key a) (env_openai_api_key w))
         \<and> mkdir_parents True (cache_dir_of a) (files s) = Inr fs1
         \<and> path_exists (files s) (arg_video a)
         \<and> lookup (files s) (arg_subtitles a) = Some (File bs) \<and> decode UTF8 bs = Some t
         \<and> (lookup (files s) (cache_dir_of a @ [ascii ''visual_analysis.json'']) = None
            \<or> (\<exists>vb vt doc.
                 lookup (files s) (cache_dir_of a @ [ascii ''visual_analysis.json''])
                   = Some (File vb)
                 \<and> decode (locale_encoding w) vb = Some vt
                 \<and> json_loads w (universal_newlines vt) = Some doc)) \<longrightarrow>
           fst (main w a s) = Exit 1
           \<and> stderr (snd (main w a s))
               = stderr s @ [ascii ''Error: Phase 3 requires synthesis.json in ''
                             @ path_str (cache_dir_of a) @ ascii ''. Run phase 2 first.'']
           \<and> calls (snd (main w a s)) = calls s))
   \<and> (arg_phase a = Some 2
      \<and> \<not> path_exists (files s) (cache_dir_of a @ [ascii ''visual_analysis.json'']) \<longrightarrow>
        (fst (main w a s) = Exit 1 \<or> (\<exists>e. fst (main w a s) = Raise e))
      \<and> (truthy (py_or (arg_gemini_key a) (env_gemini_api_key w))
         \<and> mkdir_parents True (cache_dir_of a) (files s) = Inr fs1
         \<and> path_exists (files s) (arg_video a)
         \<and> lookup (files s) (arg_subtitles a) = Some (File bs) \<and> decode UTF8 bs = Some t \<longrightarrow>
           fst (main w a s) = Exit 1
           \<and> stderr (snd (main w a s))
               = stderr s @ [ascii ''Error: Phase 2 requires visual_analysis.json in ''
                             @ path_str (cache_dir_of a) @ ascii ''. Run phase 1 first.'']
           \<and> calls (snd (main w a s)) = calls s))"
  using phase3_nonzero [of a s w] phase3_without_synthesis_exits [of a w s fs1 bs t]
    phase2_nonzero [of a s w] phase2_without_visual_exits [of a w s fs1 bs t]
  unfolding phase3_prereq_error_def phase2_prereq_error_def
  by blast

theorem missing_prerequisite_exits_witness:
  "fst (main sample_world (sample_args (Some 3)) sample_state) = Exit 1
   \<and> stderr (snd (main sample_world (sample_args (Some 3)) sample_state))
       = [ascii ''Error: Phase 3 requires synthesis.json in /work/.cache. Run phase 2 first.'']
   \<and> fst (main (sample_world\<lparr>env_gemini_api_key := Some (ascii ''key'')\<rparr>)
            (sample_args (Some 2))
            (sample_state\<lparr>files := sample_files
               ([ascii ''work'', ascii ''.cache'', ascii ''visual_analysis.json''] := None)\<rparr>))
       = Exit 1
   \<and> stderr (snd (main (sample_world\<lparr>env_gemini_api_key := Some (ascii ''key'')\<rparr>)
            (sample_args (Some 2))
            (sample_state\<lparr>files := sample_files
               ([ascii ''work'', ascii ''.cache'', ascii ''visual_analysis.json''] := None)\<rparr>)))
       = [ascii ''Error: Phase 2 requires visual_analysis.json in /work/.cache. Run phase 1 first.'']"
proof -
  let ?w2 = "sample_world\<lparr>env_gemini_api_key := Some (ascii ''key'')\<rparr>"
  let ?fs2 = "sample_files([ascii ''work'', ascii ''.cache'', ascii ''visual_analysis.json''] := None)"
  let ?s2 = "sample_state\<lparr>files := ?fs2\<rparr>"
  have m2: "mkdir_parents True [ascii ''work'', ascii ''.cache''] ?fs2 = Inr ?fs2"
    by (simp add: mkdir_parents.simps os_mkdir_def path_exists_def lookup_def is_dir_def
        sample_files_def)
  have p: "path_str [ascii ''work'', ascii ''.cache''] = ascii ''/work/.cache''"
    by (simp add: path_str_def ascii_def)
  have r2: "decode UTF8 [49, 10] = Some [49, 10]" by (simp add: decode_def)
  have k3: "truthy (py_or (arg_openai_key (sample_args (Some 3))) (env_openai_api_key sample_world))"
    by (simp add: sample_args_def sample_world_def py_or_def truthy_def)
  have d3: "mkdir_parents True (cache_dir_of (sample_args (Some 3))) (files sample_state)
      = Inr sample_files"
    by (simp add: mkdir_sample_cache sample_state_def)
  have v3: "path_exists (files sample_state) (arg_video (sample_args (Some 3)))"
    by (simp add: sample_args_def sample_state_def sample_files_def path_exists_def lookup_def)
  have r3: "lookup (files sample_state) (arg_subtitles (sample_args (Some 3))) = Some (File [49, 10])"
    by (simp add: sample_args_def sample_state_def sample_files_def lookup_def)
  have c3: "\<exists>vb vt doc.
      lookup (files sample_state)
        (cache_dir_of (sample_args (Some 3)) @ [ascii ''visual_analysis.json'']) = Some (File vb)
      \<and> decode (locale_encoding sample_world) vb = Some vt
      \<and> json_loads sample_world (universal_newlines vt) = Some doc"
    by (simp add: sample_state_def sample_files_def lookup_def sample_world_def decode_def ascii_def)
  have n3: "\<not> path_exists (files sample_state)
      (cache_dir_of (sample_args (Some 3)) @ [ascii ''synthesis.json''])"
    by (simp add: sample_state_def sample_files_def path_exists_def lookup_def)
  have p3: "arg_phase (sample_args (Some 3)) = Some 3" by (simp add: sample_args_def)
  from missing_prerequisite_exits [of "sample_args (Some 3)" sample_state sample_world
        sample_files "[49, 10]" "[49, 10]"] p3 n3 k3 d3 v3 r3 r2 c3
  have "fst (main sample_world (sample_args (Some 3)) sample_state) = Exit 1
     \<and> stderr (snd (main sample_world (sample_args (Some 3)) sample_state))
       = stderr sample_state @ [ascii ''Error: Phase 3 requires synthesis.json in ''
           @ path_str (cache_dir_of (sample_args (Some 3))) @ ascii ''. Run phase 2 first.'']"
    by blast
  then have a: "fst (main sample_world (sample_args (Some 3)) sample_state) = Exit 1
     \<and> stderr (snd (main sample_world (sample_args (Some 3)) sample_state))
       = [ascii ''Error: Phase 3 requires synthesis.json in /work/.cache. Run phase 2 first.'']"
    by (simp add: p sample_state_def) (simp add: ascii_def)
  have k2: "truthy (py_or (arg_gemini_key (sample_args (Some 2))) (env_gemini_api_key ?w2))"
    by (simp add: sample_args_def py_or_def truthy_def)
  have d2: "mkdir_parents True (cache_dir_of (sample_args (Some 2))) (files ?s2) = Inr ?fs2"
    using m2 by simp
  have v2: "path_exists (files ?s2) (arg_video (sample_args (Some 2)))"
    by (simp add: sample_args_def sample_files_def path_exists_def lookup_def)
  have r2': "lookup (files ?s2) (arg_subtitles (sample_args (Some 2))) = Some (File [49, 10])"
    by (simp add: sample_args_def sample_files_def lookup_def)
  have n2: "\<not> path_exists (files ?s2)
      (cache_dir_of (sample_args (Some 2)) @ [ascii ''visual_analysis.json''])"
    by (simp add: path_exists_def lookup_def)
  have p2: "arg_phase (sample_args (Some 2)) = Some 2" by (simp add: sample_args_def)
  from missing_prerequisite_exits [of "sample_args (Some 2)" ?s2 ?w2 ?fs2 "[49, 10]" "[49, 10]"]
    p2 n2 k2 d2 v2 r2' r2
  have "fst (main ?w2 (sample_args (Some 2)) ?s2) = Exit 1
     \<and> stderr (snd (main ?w2 (sample_args (Some 2)) ?s2))
       = stderr ?s2 @ [ascii ''Error: Phase 2 requires visual_analysis.json in ''
           @ path_str (cache_dir_of (sample_args (Some 2))) @ ascii ''. Run phase 1 first.'']"
    by blast
  then have b: "fst (main ?w2 (sample_args (Some 2)) ?s2) = Exit 1
     \<and> stderr (snd (main ?w2 (sample_args (Some 2)) ?s2))
       = [ascii ''Error: Phase 2 requires visual_analysis.json in /work/.cache. Run phase 1 first.'']"
    by (simp add: p sample_state_def) (simp add: ascii_def)
  from a b show ?thesis by simp
qed

text \<open>
  Claim C5, as stated, fails: a run of phase 2 alone with a cached visual analysis and no
  Gemini key exits on the credential check; it prints nothing to standard output, sends
  no request, and so neither loads nor uses the cached document.
\<close>

theorem phase2_cached_visual_counterexample:
  "arg_phase (sample_args (Some 2)) = Some 2
   \<and> path_exists (files sample_state)
         (cache_dir_of (sample_args (Some 2)) @ [ascii ''visual_analysis.json''])
   \<and> main sample_world (sample_args (Some 2)) sample_state
       = (Exit 1, sample_state\<lparr>stderr := [gemini_key_error]\<rparr>)
   \<and> stdout (snd (main sample_world (sample_args (Some 2)) sample_state)) = []
   \<and> calls (snd (main sample_world (sample_args (Some 2)) sample_state)) = []"
proof -
  have m: "main sample_world (sample_args (Some 2)) sample_state
       = (Exit 1, sample_state\<lparr>stderr := [gemini_key_error]\<rparr>)"
    by (simp add: main_def Let_def prog_defs sample_args_def sample_world_def sample_state_def
        py_or_def truthy_def)
  have "path_exists (files sample_state)
         (cache_dir_of (sample_args (Some 2)) @ [ascii ''visual_analysis.json''])"
    by (simp add: sample_state_def sample_files_def path_exists_def lookup_def)
  with m show ?thesis by (simp add: sample_args_def sample_state_def)
qed

text \<open>
  Claim C5, amended. A run of phase 2 alone sends no request but phase 2's own
  generation request: no upload, no polling, no deletion. When moreover the Gemini key is
  given, the cache directory exists or can be created, the video exists, the subtitles are
  a file that decodes as UTF-8, and the cached \<open>visual_analysis.json\<close> is a file that
  decodes in the locale's encoding and parses, the run sends exactly one request, the
  phase 2 request whose prompt embeds the dump of the cached document.
\<close>

theorem phase2_uses_cached_visual_analysis:
  "arg_phase a = Some 2 \<longrightarrow>
     (\<exists>l. calls (snd (main w a s)) = calls s @ l
          \<and> set l \<subseteq> {c. \<exists>p. c = GenerateContentStream (ascii ''gemini-2.5-flash'')
                                   (TextPrompt p) (ascii ''0.2'') 65536})
     \<and> (truthy (py_or (arg_gemini_key a) (env_gemini_api_key w))
        \<and> mkdir_parents True (cache_dir_of a) (files s) = Inr fs1
        \<and> path_exists (files s) (arg_video a)
        \<and> lookup (files s) (arg_subtitles a) = Some (File bs) \<and> decode UTF8 bs = Some t
        \<and> lookup (files s) (cache_dir_of a @ [ascii ''visual_analysis.json'']) = Some (File vb)
        \<and> decode (locale_encoding w) vb = Some vt
        \<and> json_loads w (universal_newlines vt) = Some doc \<longrightarrow>
          calls (snd (main w a s))
            = calls s @ [GenerateContentStream (ascii ''gemini-2.5-flash'')
                           (TextPrompt (PHASE2_PROMPT (json_dumps False doc)
                                          (universal_newlines t)))
                           (ascii ''0.2'') 65536])"
proof (intro impI conjI)
  assume phase: "arg_phase a = Some 2"
  from emits_main [OF refl refl refl, of a w]
  obtain l where l: "calls (snd (main w a s)) = calls s @ l"
    and sub: "set l \<subseteq> {c. 1 \<in> set (case arg_phase a of None \<Rightarrow> [1, 2, 3] | Some p \<Rightarrow> [p])
       \<or> (2 \<in> set (case arg_phase a of None \<Rightarrow> [1, 2, 3] | Some p \<Rightarrow> [p])
          \<and> (\<exists>p. c = GenerateContentStream (ascii ''gemini-2.5-flash'') (TextPrompt p)
                                   (ascii ''0.2'') 65536))
       \<or> (3 \<in> set (case arg_phase a of None \<Rightarrow> [1, 2, 3] | Some p \<Rightarrow> [p])
          \<and> (\<exists>ms. c = ChatCompletionsCreate (ascii ''gpt-5.2'') ms (ascii ''0.3'') 16384))}"
    unfolding emits_def by blast
  from sub phase have "set l \<subseteq> {c. \<exists>p. c = GenerateContentStream (ascii ''gemini-2.5-flash'')
                                   (TextPrompt p) (ascii ''0.2'') 65536}"
    by auto
  with l show "\<exists>l. calls (snd (main w a s)) = calls s @ l
          \<and> set l \<subseteq> {c. \<exists>p. c = GenerateContentStream (ascii ''gemini-2.5-flash'')
                                   (TextPrompt p) (ascii ''0.2'') 65536}"
    by blast
next
  assume phase: "arg_phase a = Some 2"
    and h: "truthy (py_or (arg_gemini_key a) (env_gemini_api_key w))
        \<and> mkdir_parents True (cache_dir_of a) (files s) = Inr fs1
        \<and> path_exists (files s) (arg_video a)
        \<and> lookup (files s) (arg_subtitles a) = Some (File bs) \<and> decode UTF8 bs = Some t
        \<and> lookup (files s) (cache_dir_of a @ [ascii ''visual_analysis.json'']) = Some (File vb)
        \<and> decode (locale_encoding w) vb = Some vt
        \<and> json_loads w (universal_newlines vt) = Some doc"
  from h main_calls_phase2 [OF phase, of w s fs1 bs t vb vt doc]
  show "calls (snd (main w a s))
            = calls s @ [GenerateContentStream (ascii ''gemini-2.5-flash'')
                           (TextPrompt (PHASE2_PROMPT (json_dumps False doc)
                                          (universal_newlines t)))
                           (ascii ''0.2'') 65536]"
    by blast
qed

theorem phase2_uses_cached_visual_analysis_witness:
  "calls (snd (main (sample_world\<lparr>env_gemini_api_key := Some (ascii ''key'')\<rparr>)
                 (sample_args (Some 2)) sample_state))
     = [GenerateContentStream (ascii ''gemini-2.5-flash'')
          (TextPrompt (PHASE2_PROMPT (json_dumps False (JObj [])) [49, 10]))
          (ascii ''0.2'') 65536]"
proof -
  let ?w = "sample_world\<lparr>env_gemini_api_key := Some (ascii ''key'')\<rparr>"
  let ?a = "sample_args (Some 2)"
  have p: "arg_phase ?a = Some 2" by (simp add: sample_args_def)
  have k: "truthy (py_or (arg_gemini_key ?a) (env_gemini_api_key ?w))"
    by (simp add: sample_args_def py_or_def truthy_def)
  have d: "mkdir_parents True (cache_dir_of ?a) (files sample_state) = Inr sample_files"
    by (simp add: mkdir_sample_cache sample_state_def)
  have v: "path_exists (files sample_state) (arg_video ?a)"
    by (simp add: sample_args_def sample_state_def sample_files_def path_exists_def lookup_def)
  have r: "lookup (files sample_state) (arg_subtitles ?a) = Some (File [49, 10])"
    by (simp add: sample_args_def sample_state_def sample_files_def lookup_def)
  have r2: "decode UTF8 [49, 10] = Some [49, 10]" by (simp add: decode_def)
  have c: "lookup (files sample_state) (cache_dir_of ?a @ [ascii ''visual_analysis.json''])
      = Some (File [123, 125])"
    by (simp add: sample_state_def sample_files_def lookup_def)
  have c2: "decode (locale_encoding ?w) [123, 125] = Some [123, 125]"
    by (simp add: sample_world_def decode_def)
  have c3: "json_loads ?w (universal_newlines [123, 125]) = Some (JObj [])"
    by (simp add: sample_world_def ascii_def)
  from phase2_uses_cached_visual_analysis
      [of ?a ?w sample_state sample_files "[49, 10]" "[49, 10]" "[123, 125]" "[123, 125]" "JObj []"]
    p k d v r r2 c c2 c3
  have "calls (snd (main ?w ?a sample_state))
     = calls sample_state @ [GenerateContentStream (ascii ''gemini-2.5-flash'')
          (TextPrompt (PHASE2_PROMPT (json_dumps False (JObj [])) (universal_newlines [49, 10])))
          (ascii ''0.2'') 65536]"
    by blast
  then show ?thesis by (simp add: sample_state_def)
qed

text \<open>
  Claim C9. \<open>run_phase2\<close> writes the cache file with \<open>write_text\<close> and no \<open>encoding\<close>
  argument, so the bytes are the dump in the locale's encoding. Under a Latin-1 locale
  the document with the one string \<open>e-acute\<close> is written with the byte 0xE9: the file is
  not UTF-8 (it does not decode as UTF-8, and the UTF-8 encoding of the dump is another
  byte sequence).
\<close>

theorem run_phase2_cache_file_latin1:
  "files (snd (run_phase2 latin1_world JNull [] [ascii ''work'', ascii ''.cache''] sample_state))
     [ascii ''work'', ascii ''.cache'', ascii ''synthesis.json'']
     = Some (File [123, 10, 32, 32, 34, 97, 34, 58, 32, 34, 233, 34, 10, 125])
   \<and> utf8_decode [123, 10, 32, 32, 34, 97, 34, 58, 32, 34, 233, 34, 10, 125] = None
   \<and> encode UTF8 (json_dumps False (JObj [(ascii ''a'', JStr [233])]))
     = Some [123, 10, 32, 32, 34, 97, 34, 58, 32, 34, 195, 169, 34, 10, 125]"
  by (simp add: run_phase2_def stream_gemini_def prog_defs latin1_world_def sample_world_def
      sample_state_def sample_files_def strip_fences_def py_strip_def is_space_def startswith_def
      fence_def loads_def write_text_def open_write_def is_dir_def lookup_def encode_def
      encode_char_def utf8_encode_char_def json_dumps_def encode_basestring_def escape_char_def
      newline_indent_def replicate_numeral count_line_def json_get_list_def json_len_def
      is_cont_def ascii_def split_beta)

end
